theory Spec2Isabelle
  imports Main "HOL-Library.Sublist" "HOL-Library.Char_ord" "HOL-Library.List_Lexorder"
begin

section \<open>Python strings\<close>

text \<open>
  A Python \<open>str\<close> is a sequence of code points and \<open>len\<close> counts code points. The model
  uses \<^typ>\<open>string\<close>, one \<^typ>\<open>char\<close> per code point, so it covers the strings whose code
  points lie below 256. Every function below is written for arbitrary such strings.
\<close>

definition upper_letters :: string where
  "upper_letters = ''ABCDEFGHIJKLMNOPQRSTUVWXYZ'' @
     [CHR 0xC0, CHR 0xC1, CHR 0xC2, CHR 0xC3, CHR 0xC4, CHR 0xC5, CHR 0xC6, CHR 0xC7,
      CHR 0xC8, CHR 0xC9, CHR 0xCA, CHR 0xCB, CHR 0xCC, CHR 0xCD, CHR 0xCE, CHR 0xCF,
      CHR 0xD0, CHR 0xD1, CHR 0xD2, CHR 0xD3, CHR 0xD4, CHR 0xD5, CHR 0xD6,
      CHR 0xD8, CHR 0xD9, CHR 0xDA, CHR 0xDB, CHR 0xDC, CHR 0xDD, CHR 0xDE]"

definition lower_letters :: string where
  "lower_letters = ''abcdefghijklmnopqrstuvwxyz'' @
     [CHR 0xE0, CHR 0xE1, CHR 0xE2, CHR 0xE3, CHR 0xE4, CHR 0xE5, CHR 0xE6, CHR 0xE7,
      CHR 0xE8, CHR 0xE9, CHR 0xEA, CHR 0xEB, CHR 0xEC, CHR 0xED, CHR 0xEE, CHR 0xEF,
      CHR 0xF0, CHR 0xF1, CHR 0xF2, CHR 0xF3, CHR 0xF4, CHR 0xF5, CHR 0xF6,
      CHR 0xF8, CHR 0xF9, CHR 0xFA, CHR 0xFB, CHR 0xFC, CHR 0xFD, CHR 0xFE]"

text \<open>\<open>c.lower()\<close> on one code point below 256: the ASCII and Latin-1 capitals move, the rest stay.\<close>

definition lower_char :: "char \<Rightarrow> char" where
  "lower_char c = (case map_of (zip upper_letters lower_letters) c of Some d \<Rightarrow> d | None \<Rightarrow> c)"

text \<open>\<open>s.lower()\<close>\<close>

definition py_lower :: "string \<Rightarrow> string" where
  "py_lower s = map lower_char s"

text \<open>\<open>sub in s\<close>: \<open>sub\<close> occurs in \<open>s\<close> as a contiguous substring.\<close>

fun py_in :: "string \<Rightarrow> string \<Rightarrow> bool" where
  "py_in sub [] = (sub = [])"
| "py_in sub (c # cs) = (prefix sub (c # cs) \<or> py_in sub cs)"

text \<open>\<open>s.replace(c, d)\<close> for one-character \<open>c\<close> and \<open>d\<close>.\<close>

definition py_replace :: "char \<Rightarrow> char \<Rightarrow> string \<Rightarrow> string" where
  "py_replace c d s = map (\<lambda>x. if x = c then d else x) s"

text \<open>\<open>s.strip(chars)\<close>: drop leading and trailing characters that occur in \<open>chars\<close>.\<close>

definition py_strip :: "string \<Rightarrow> string \<Rightarrow> string" where
  "py_strip chars s =
     rev (dropWhile (\<lambda>x. x \<in> set chars) (rev (dropWhile (\<lambda>x. x \<in> set chars) s)))"

text \<open>\<open>sep.join(xs)\<close>\<close>

fun py_join :: "string \<Rightarrow> string list \<Rightarrow> string" where
  "py_join sep [] = []"
| "py_join sep [x] = x"
| "py_join sep (x # y # ys) = x @ sep @ py_join sep (y # ys)"

text \<open>\<open>str(n)\<close> for a Python integer: decimal digits, with a minus sign when negative.\<close>

definition digit_char :: "nat \<Rightarrow> char" where
  "digit_char d = ''0123456789'' ! d"

fun str_nat :: "nat \<Rightarrow> string" where
  "str_nat n = (if n < 10 then [digit_char n] else str_nat (n div 10) @ [digit_char (n mod 10)])"

declare str_nat.simps [simp del]

definition py_str :: "int \<Rightarrow> string" where
  "py_str i = (if i < 0 then CHR ''-'' # str_nat (nat (- i)) else str_nat (nat i))"

text \<open>
  \<open>s.zfill(width)\<close>: pad with zeros on the left up to \<open>width\<close>; a leading sign stays in
  front of the zeros; a string already that long is returned as it is.
\<close>

definition py_zfill :: "string \<Rightarrow> nat \<Rightarrow> string" where
  "py_zfill s width =
     (if width \<le> length s then s
      else (case s of
              c # rest \<Rightarrow>
                if c = CHR ''+'' \<or> c = CHR ''-''
                then c # replicate (width - length s) CHR ''0'' @ rest
                else replicate (width - length s) CHR ''0'' @ s
            | [] \<Rightarrow> replicate width CHR ''0''))"

section \<open>Utilities\<close>

text \<open>
  \<^verbatim>\<open>
  def sanitize_filename(filename: str) -> str:
      invalid_chars = '<>:"/\\|?*'
      for char in invalid_chars:
          filename = filename.replace(char, '_')
      return filename.strip('. ')[:200]
  \<close>
\<close>

definition invalid_chars :: string where
  "invalid_chars = [CHR ''<'', CHR ''>'', CHR '':'', CHR 0x22, CHR ''/'', CHR 0x5C,
                    CHR ''|'', CHR ''?'', CHR ''*'']"

definition sanitize_filename :: "string \<Rightarrow> string" where
  "sanitize_filename filename =
     take 200 (py_strip ''. '' (foldl (\<lambda>name char. py_replace char CHR ''_'' name) filename invalid_chars))"

section \<open>Paths and the filesystem\<close>

text \<open>
  A \<open>pathlib.Path\<close> is the list of its components below the root, so \<open>p / name\<close> appends
  one component, \<open>p.parent\<close> drops the last one and \<open>p.name\<close> is the last one. Paths compare
  as \<open>PurePosixPath\<close> does: component lists in lexicographic order, each component in code-point
  order, which is the order \<^const>\<open>sort\<close> uses on \<^typ>\<open>string list\<close>.
\<close>

type_synonym path = "string list"

definition path_name :: "path \<Rightarrow> string" where
  "path_name p = (case rev p of [] \<Rightarrow> [] | n # _ \<Rightarrow> n)"

definition path_parent :: "path \<Rightarrow> path" where
  "path_parent p = butlast p"

text \<open>\<open>p / name\<close>; joining the empty string gives \<open>p\<close> back.\<close>

definition path_join :: "path \<Rightarrow> string \<Rightarrow> path" where
  "path_join p n = (if n = [] then p else p @ [n])"

text \<open>\<open>str(p)\<close> for an absolute POSIX path.\<close>

definition str_path :: "path \<Rightarrow> string" where
  "str_path p = (if p = [] then ''/'' else concat (map (\<lambda>c. CHR ''/'' # c) p))"

text \<open>\<open>s.rfind(c)\<close>, with \<open>None\<close> for Python's -1.\<close>

definition py_rfind :: "char \<Rightarrow> string \<Rightarrow> nat option" where
  "py_rfind c s =
     (if c \<in> set s then Some (length s - 1 - length (takeWhile (\<lambda>x. x \<noteq> c) (rev s))) else None)"

text \<open>
  \<open>Path.suffix\<close> and \<open>Path.stem\<close>, as pathlib computes them from the name:
  \<^verbatim>\<open>
  i = name.rfind('.')
  if 0 < i < len(name) - 1: suffix = name[i:]; stem = name[:i]
  else:                     suffix = '';       stem = name
  \<close>
\<close>

definition name_suffix :: "string \<Rightarrow> string" where
  "name_suffix name =
     (case py_rfind CHR ''.'' name of
        Some i \<Rightarrow> if 0 < i \<and> i + 1 < length name then drop i name else []
      | None \<Rightarrow> [])"

definition name_stem :: "string \<Rightarrow> string" where
  "name_stem name =
     (case py_rfind CHR ''.'' name of
        Some i \<Rightarrow> if 0 < i \<and> i + 1 < length name then take i name else name
      | None \<Rightarrow> name)"

definition path_suffix :: "path \<Rightarrow> string" where
  "path_suffix p = name_suffix (path_name p)"

definition path_stem :: "path \<Rightarrow> string" where
  "path_stem p = name_stem (path_name p)"

text \<open>
  The filesystem: the directories that exist, and the regular files with their contents.
  Only what the program itself reads is modelled; every call is made on a tree where it
  succeeds (no permission errors, no regular file where a directory is expected).
\<close>

record fsys =
  fs_dirs :: "path list"
  fs_files :: "(path \<times> string) list"

definition path_exists :: "fsys \<Rightarrow> path \<Rightarrow> bool" where
  "path_exists t p = (p = [] \<or> p \<in> set (fs_dirs t) \<or> p \<in> set (map fst (fs_files t)))"

definition is_file :: "fsys \<Rightarrow> path \<Rightarrow> bool" where
  "is_file t p = (p \<in> set (map fst (fs_files t)))"

definition read_file :: "fsys \<Rightarrow> path \<Rightarrow> string option" where
  "read_file t p = map_of (fs_files t) p"

text \<open>\<open>folder.iterdir()\<close>: the entries directly below \<open>folder\<close>.\<close>

definition iterdir :: "fsys \<Rightarrow> path \<Rightarrow> path list" where
  "iterdir t folder =
     remdups (filter (\<lambda>p. p \<noteq> [] \<and> butlast p = folder) (map fst (fs_files t) @ fs_dirs t))"

text \<open>\<open>p.mkdir(parents=True, exist_ok=True)\<close>: \<open>p\<close> and its missing ancestors come to exist.\<close>

definition mkdir_parents :: "fsys \<Rightarrow> path \<Rightarrow> fsys" where
  "mkdir_parents t p =
     t\<lparr>fs_dirs := fs_dirs t @ filter (\<lambda>d. d \<noteq> [] \<and> d \<notin> set (fs_dirs t)) (prefixes p)\<rparr>"

text \<open>\<open>p.unlink(missing_ok=True)\<close>\<close>

definition unlink :: "fsys \<Rightarrow> path \<Rightarrow> fsys" where
  "unlink t p = t\<lparr>fs_files := filter (\<lambda>e. fst e \<noteq> p) (fs_files t)\<rparr>"

text \<open>\<open>open(p, "wb").write(content)\<close>\<close>

definition write_file :: "fsys \<Rightarrow> path \<Rightarrow> string \<Rightarrow> fsys" where
  "write_file t p content = t\<lparr>fs_files := (p, content) # filter (\<lambda>e. fst e \<noteq> p) (fs_files t)\<rparr>"

text \<open>\<open>open(p, "a").write(entry)\<close>\<close>

definition append_file :: "fsys \<Rightarrow> path \<Rightarrow> string \<Rightarrow> fsys" where
  "append_file t p entry =
     write_file t p ((case read_file t p of None \<Rightarrow> [] | Some old \<Rightarrow> old) @ entry)"

section \<open>The world outside the program\<close>

text \<open>
  Everything the program does to the outside is an event appended to a trace; a run of
  one of the two tools is recorded with its command line and its exit code. What the
  outside answers is given by the fields of an environment: the accounts service, the
  catalog, the artwork server, the two external tools, the clock and the random source.
  The tools may change the filesystem in any way; each answer may depend on the number
  of events so far, so a tool may fail once and succeed on the next attempt. Console
  output is not modelled. The worker pool of \<open>convert_to_aac_parallel\<close> is run in
  submission order.
\<close>

datatype error = HTTPError | KeyError | TypeError

record track_obj =
  tr_name :: string
  tr_artists :: "string list"
  tr_track_number :: int
  tr_album_name :: string
  tr_album_images :: "string list"

record album_obj =
  al_name :: string
  al_artists :: "string list"
  al_images :: "string list"
  al_items :: "track_obj list"

record playlist_obj =
  pl_name :: string
  pl_owner_display_name :: string
  pl_images :: "string list"
  pl_items :: "track_obj option list"

datatype response =
    AlbumResponse album_obj
  | TrackResponse track_obj
  | PlaylistResponse playlist_obj
  | SavedTracksResponse "track_obj option list"

datatype event =
    TokenRequest bool
  | CatalogGet string string
  | ArtGet string
  | Mkdir path
  | Spotdl "string list" int
  | Sleep int
  | FfmpegEncoders
  | Ffmpeg "string list" int
  | Unlink path
  | WriteFile path
  | LogAppend string

record env =
  home_dir :: path
  temp_dir :: path
  token_service :: "bool \<Rightarrow> error + string"
  catalog :: "string \<Rightarrow> string \<Rightarrow> error + response"
  art_service :: "string \<Rightarrow> int \<times> string"
  uuid4_hex :: "nat \<Rightarrow> string"
  clock :: "nat \<Rightarrow> string"
  spotdl :: "nat \<Rightarrow> string list \<Rightarrow> fsys \<Rightarrow> int \<times> fsys"
  ffmpeg_encoders :: "nat \<Rightarrow> string option"
  ffmpeg :: "nat \<Rightarrow> string list \<Rightarrow> fsys \<Rightarrow> int \<times> fsys"

record world =
  fs :: fsys
  trace :: "event list"

definition emit :: "event \<Rightarrow> world \<Rightarrow> world" where
  "emit e w = w\<lparr>trace := trace w @ [e]\<rparr>"

text \<open>The number of events so far: the logical time handed to the environment.\<close>

definition tick :: "world \<Rightarrow> nat" where
  "tick w = length (trace w)"

section \<open>Configuration\<close>

definition BASE_DIR :: "env \<Rightarrow> path" where
  "BASE_DIR E = path_join (home_dir E) ''SpotifyDownloads''"

definition LOG_FILE :: "env \<Rightarrow> path" where
  "LOG_FILE E = path_join (BASE_DIR E) ''download_log.txt''"

definition PREFERRED_FORMAT :: string where
  "PREFERRED_FORMAT = ''flac''"

definition FALLBACK_FORMAT :: string where
  "FALLBACK_FORMAT = ''mp3''"

definition MP3_BITRATE :: string where
  "MP3_BITRATE = ''320k''"

section \<open>Spotify auth\<close>

text \<open>
  \<open>get_spotify_token(client_only)\<close> posts to the accounts service (after asking the
  operator for the code when \<open>client_only\<close> is false), raises on an HTTP error status and
  returns the access token. Both branches are one request to the environment.
\<close>

definition get_spotify_token :: "env \<Rightarrow> bool \<Rightarrow> world \<Rightarrow> (error + string) \<times> world" where
  "get_spotify_token E client_only w = (token_service E client_only, emit (TokenRequest client_only) w)"

section \<open>Spotify metadata fetchers\<close>

text \<open>
  \<^verbatim>\<open>
  def extract_spotify_id_and_type(url: str):
      if "liked-songs" in url:  # special case
          return "liked", "liked"
      pattern = r'https?://open\.spotify\.com/(album|playlist|track)/([a-zA-Z0-9]+)'
      match = re.search(pattern, url)
      if match:
          return match.group(2), match.group(1)
      return None, None
  \<close>
  The regular expression is matched by hand: \<open>match_here\<close> tries the pattern at the start
  of a string (the optional \<open>s\<close> is tried first, the alternatives in their order, the
  identifier is the longest run of letters and digits and must not be empty), and
  \<open>re_search\<close> takes the leftmost position where it matches. The result \<open>(None, None)\<close>
  is \<open>None\<close>.
\<close>

definition strip_prefix :: "string \<Rightarrow> string \<Rightarrow> string option" where
  "strip_prefix p s = (if prefix p s then Some (drop (length p) s) else None)"

definition is_alnum :: "char \<Rightarrow> bool" where
  "is_alnum c =
     (c \<in> set ''abcdefghijklmnopqrstuvwxyzABCDEFGHIJKLMNOPQRSTUVWXYZ0123456789'')"

definition match_kind_id :: "string \<Rightarrow> (string \<times> string) option" where
  "match_kind_id s =
     (case find (\<lambda>k. case strip_prefix (k @ ''/'') s of
                         None \<Rightarrow> False
                       | Some r \<Rightarrow> takeWhile is_alnum r \<noteq> [])
                [''album'', ''playlist'', ''track''] of
        None \<Rightarrow> None
      | Some k \<Rightarrow> Some (takeWhile is_alnum (drop (length k + 1) s), k))"

definition match_host :: "string \<Rightarrow> (string \<times> string) option" where
  "match_host s =
     (case strip_prefix ''://open.spotify.com/'' s of
        None \<Rightarrow> None
      | Some r \<Rightarrow> match_kind_id r)"

definition match_here :: "string \<Rightarrow> (string \<times> string) option" where
  "match_here s =
     (case strip_prefix ''http'' s of
        None \<Rightarrow> None
      | Some r \<Rightarrow>
          (case (case strip_prefix ''s'' r of None \<Rightarrow> None | Some r' \<Rightarrow> match_host r') of
             Some m \<Rightarrow> Some m
           | None \<Rightarrow> match_host r))"

fun re_search :: "string \<Rightarrow> (string \<times> string) option" where
  "re_search [] = match_here []"
| "re_search (c # cs) =
     (case match_here (c # cs) of Some m \<Rightarrow> Some m | None \<Rightarrow> re_search cs)"

definition extract_spotify_id_and_type :: "string \<Rightarrow> (string \<times> string) option" where
  "extract_spotify_id_and_type url =
     (if py_in ''liked-songs'' url then Some (''liked'', ''liked'') else re_search url)"

text \<open>The dictionaries the fetchers build: one per track (keys \<open>number\<close>, \<open>title\<close>,
  \<open>artists\<close>, \<open>album\<close>), one per collection (keys \<open>artist\<close>, \<open>album\<close>, \<open>tracks\<close>,
  \<open>image_url\<close>).\<close>

record track_info =
  t_number :: int
  t_title :: string
  t_artists :: string
  t_album :: string

record metadata =
  md_artist :: string
  md_album :: string
  md_tracks :: "track_info list"
  md_image_url :: "string option"

text \<open>
  \<open>requests.get(url, headers)\<close>, \<open>raise_for_status()\<close> and \<open>json()\<close>: one read of the
  catalog, which answers with an error or a response.
\<close>

definition catalog_get :: "env \<Rightarrow> string \<Rightarrow> string \<Rightarrow> world \<Rightarrow> (error + response) \<times> world" where
  "catalog_get E url token w = (catalog E url token, emit (CatalogGet url token) w)"

text \<open>\<open>data["images"][0]["url"] if data.get("images") else None\<close>\<close>

definition first_image :: "string list \<Rightarrow> string option" where
  "first_image images = (case images of [] \<Rightarrow> None | u # _ \<Rightarrow> Some u)"

definition get_album_metadata :: "env \<Rightarrow> string \<Rightarrow> string \<Rightarrow> world \<Rightarrow> (error + metadata) \<times> world" where
  "get_album_metadata E spotify_id token w =
     (let url = ''https://api.spotify.com/v1/albums/'' @ spotify_id;
          (resp, w1) = catalog_get E url token w
      in case resp of
           Inl e \<Rightarrow> (Inl e, w1)
         | Inr (AlbumResponse data) \<Rightarrow>
             (Inr \<lparr>md_artist = py_join '', '' (al_artists data),
                   md_album = al_name data,
                   md_tracks = map (\<lambda>t. \<lparr>t_number = tr_track_number t,
                                            t_title = tr_name t,
                                            t_artists = py_join '', '' (tr_artists t),
                                            t_album = al_name data\<rparr>) (al_items data),
                   md_image_url = first_image (al_images data)\<rparr>, w1)
         | Inr _ \<Rightarrow> (Inl KeyError, w1))"

definition get_track_metadata :: "env \<Rightarrow> string \<Rightarrow> string \<Rightarrow> world \<Rightarrow> (error + metadata) \<times> world" where
  "get_track_metadata E spotify_id token w =
     (let url = ''https://api.spotify.com/v1/tracks/'' @ spotify_id;
          (resp, w1) = catalog_get E url token w
      in case resp of
           Inl e \<Rightarrow> (Inl e, w1)
         | Inr (TrackResponse data) \<Rightarrow>
             (Inr \<lparr>md_artist = py_join '', '' (tr_artists data),
                   md_album = tr_album_name data,
                   md_tracks = [\<lparr>t_number = 1,
                                  t_title = tr_name data,
                                  t_artists = py_join '', '' (tr_artists data),
                                  t_album = tr_album_name data\<rparr>],
                   md_image_url = first_image (tr_album_images data)\<rparr>, w1)
         | Inr _ \<Rightarrow> (Inl KeyError, w1))"

text \<open>
  \<^verbatim>\<open>
  tracks = []
  for idx, item in enumerate(data["tracks"]["items"], start=1):
      track = item["track"]
      if track:
          tracks.append({"number": idx, "title": track["name"],
                         "artists": ", ".join([a["name"] for a in track["artists"]]),
                         "album": data["name"]})
  \<close>
  \<open>playlist_tracks name idx items\<close> is the list this loop appends, from the item numbered
  \<open>idx\<close> on.
\<close>

fun playlist_tracks :: "string \<Rightarrow> int \<Rightarrow> track_obj option list \<Rightarrow> track_info list" where
  "playlist_tracks name idx [] = []"
| "playlist_tracks name idx (item # items) =
     (case item of
        Some track \<Rightarrow>
          \<lparr>t_number = idx, t_title = tr_name track,
           t_artists = py_join '', '' (tr_artists track), t_album = name\<rparr>
            # playlist_tracks name (idx + 1) items
      | None \<Rightarrow> playlist_tracks name (idx + 1) items)"

definition get_playlist_metadata :: "env \<Rightarrow> string \<Rightarrow> string \<Rightarrow> world \<Rightarrow> (error + metadata) \<times> world" where
  "get_playlist_metadata E spotify_id token w =
     (let url = ''https://api.spotify.com/v1/playlists/'' @ spotify_id;
          (resp, w1) = catalog_get E url token w
      in case resp of
           Inl e \<Rightarrow> (Inl e, w1)
         | Inr (PlaylistResponse data) \<Rightarrow>
             (Inr \<lparr>md_artist = pl_owner_display_name data,
                   md_album = pl_name data,
                   md_tracks = playlist_tracks (pl_name data) 1 (pl_items data),
                   md_image_url = first_image (pl_images data)\<rparr>, w1)
         | Inr _ \<Rightarrow> (Inl KeyError, w1))"

text \<open>
  \<^verbatim>\<open>
  for idx, item in enumerate(data["items"], start=1):
      t = item["track"]
      tracks.append({"number": idx, "title": t["name"], ...,
                     "album": t["album"]["name"]})
  \<close>
  Here a null track is not skipped: \<open>t["name"]\<close> raises \<open>TypeError\<close>.
\<close>

fun liked_tracks :: "int \<Rightarrow> track_obj option list \<Rightarrow> error + track_info list" where
  "liked_tracks idx [] = Inr []"
| "liked_tracks idx (item # items) =
     (case item of
        None \<Rightarrow> Inl TypeError
      | Some t \<Rightarrow>
          (case liked_tracks (idx + 1) items of
             Inl e \<Rightarrow> Inl e
           | Inr tracks \<Rightarrow>
               Inr (\<lparr>t_number = idx, t_title = tr_name t,
                     t_artists = py_join '', '' (tr_artists t), t_album = tr_album_name t\<rparr> # tracks)))"

definition liked_songs_url :: string where
  "liked_songs_url = ''https://api.spotify.com/v1/me/tracks?limit=50''"

definition get_liked_songs_metadata :: "env \<Rightarrow> string \<Rightarrow> world \<Rightarrow> (error + metadata) \<times> world" where
  "get_liked_songs_metadata E token w =
     (let (resp, w1) = catalog_get E liked_songs_url token w
      in case resp of
           Inl e \<Rightarrow> (Inl e, w1)
         | Inr (SavedTracksResponse items) \<Rightarrow>
             (case liked_tracks 1 items of
                Inl e \<Rightarrow> (Inl e, w1)
              | Inr tracks \<Rightarrow>
                  (Inr \<lparr>md_artist = ''Liked Songs'',
                        md_album = ''Spotify Liked Songs'',
                        md_tracks = tracks,
                        md_image_url = None\<rparr>, w1))
         | Inr _ \<Rightarrow> (Inl KeyError, w1))"

text \<open>
  \<open>get_metadata_from_url\<close>: the empty dictionary \<open>{}\<close> is \<open>None\<close>; an exception of the
  token request or of a fetcher leaves through \<open>Inl\<close>.
\<close>

definition some_metadata :: "(error + metadata) \<times> world \<Rightarrow> (error + metadata option) \<times> world" where
  "some_metadata r = (case r of (Inl e, w) \<Rightarrow> (Inl e, w) | (Inr m, w) \<Rightarrow> (Inr (Some m), w))"

definition get_metadata_from_url :: "env \<Rightarrow> string \<Rightarrow> world \<Rightarrow> (error + metadata option) \<times> world" where
  "get_metadata_from_url E url w =
     (case extract_spotify_id_and_type url of
        None \<Rightarrow> (Inr None, w)
      | Some (spotify_id, content_type) \<Rightarrow>
          if spotify_id = [] then (Inr None, w)
          else
            (let client_only = (content_type \<in> set [''album'', ''track'']);
                 (tok, w1) = get_spotify_token E client_only w
             in case tok of
                  Inl e \<Rightarrow> (Inl e, w1)
                | Inr token \<Rightarrow>
                    if content_type = ''album'' then some_metadata (get_album_metadata E spotify_id token w1)
                    else if content_type = ''track'' then some_metadata (get_track_metadata E spotify_id token w1)
                    else if content_type = ''playlist'' then some_metadata (get_playlist_metadata E spotify_id token w1)
                    else if content_type = ''liked'' then some_metadata (get_liked_songs_metadata E token w1)
                    else (Inr None, w1)))"

section \<open>Artwork and the run log\<close>

text \<open>
  \<^verbatim>\<open>
  def download_album_art(url: str) -> Path | None:
      if not url:
          return None
      response = requests.get(url)
      if response.status_code == 200:
          tmp_file = Path(tempfile.gettempdir()) / f"album_art_{uuid.uuid4().hex}.jpg"
          with open(tmp_file, "wb") as f:
              f.write(response.content)
          return tmp_file
      return None
  \<close>
\<close>

definition download_album_art :: "env \<Rightarrow> string \<Rightarrow> world \<Rightarrow> path option \<times> world" where
  "download_album_art E url w =
     (if url = [] then (None, w)
      else
        (let (status_code, content) = art_service E url;
             w1 = emit (ArtGet url) w
         in if status_code = 200
            then (let tmp_file = path_join (temp_dir E) (''album_art_'' @ uuid4_hex E (tick w1) @ ''.jpg'')
                  in (Some tmp_file, emit (WriteFile tmp_file) (w1\<lparr>fs := write_file (fs w1) tmp_file content\<rparr>)))
            else (None, w1)))"

text \<open>
  \<^verbatim>\<open>
  def log_download(artist, album, num_songs, fmt="AAC M4A", status="SUCCESS"):
      BASE_DIR.mkdir(parents=True, exist_ok=True)
      timestamp = datetime.now().strftime('%Y-%m-%d %H:%M:%S')
      entry = f"[{timestamp}] {status} | {artist} - {album} | {num_songs} songs | {fmt}\n"
      with open(LOG_FILE, "a", encoding="utf-8") as log:
          log.write(entry)
  \<close>
\<close>

definition log_entry :: "string \<Rightarrow> string \<Rightarrow> string \<Rightarrow> string \<Rightarrow> int \<Rightarrow> string \<Rightarrow> string" where
  "log_entry timestamp status artist album num_songs fmt =
     ''['' @ timestamp @ ''] '' @ status @ '' | '' @ artist @ '' - '' @ album @ '' | ''
       @ py_str num_songs @ '' songs | '' @ fmt @ [CHR 0x0A]"

definition log_download :: "env \<Rightarrow> string \<Rightarrow> string \<Rightarrow> int \<Rightarrow> string \<Rightarrow> string \<Rightarrow> world \<Rightarrow> world" where
  "log_download E artist album num_songs fmt status w =
     (let w1 = emit (Mkdir (BASE_DIR E)) (w\<lparr>fs := mkdir_parents (fs w) (BASE_DIR E)\<rparr>);
          timestamp = clock E (tick w1);
          entry = log_entry timestamp status artist album num_songs fmt
      in emit (LogAppend entry) (w1\<lparr>fs := append_file (fs w1) (LOG_FILE E) entry\<rparr>))"

section \<open>Conversion and metadata\<close>

text \<open>
  \<open>get_ffmpeg_aac_codec\<close>: \<open>ffmpeg -encoders\<close> answers with its standard output, or the call
  raises and the bare \<open>except\<close> swallows it.
\<close>

definition get_ffmpeg_aac_codec :: "env \<Rightarrow> world \<Rightarrow> string \<times> world" where
  "get_ffmpeg_aac_codec E w =
     (case ffmpeg_encoders E (tick w) of
        Some stdout \<Rightarrow> (if py_in ''aac_at'' stdout then ''aac_at'' else ''aac'', emit FfmpegEncoders w)
      | None \<Rightarrow> (''aac'', emit FfmpegEncoders w))"

text \<open>
  \<open>embed_metadata(file_path, track_info, album_art, pad_digits)\<close>: the name of the output
  file, the command line, the run of the engine, and the deletion of the input when the
  engine returns 0. The result is the output file, or \<open>None\<close>.
\<close>

definition output_name :: "track_info \<Rightarrow> nat \<Rightarrow> string" where
  "output_name track_info pad_digits =
     (let track_number_str = py_zfill (py_str (t_number track_info)) pad_digits;
          safe_title = sanitize_filename (t_title track_info)
      in track_number_str @ '' - '' @ safe_title @ ''.m4a'')"

definition ffmpeg_cmd :: "fsys \<Rightarrow> path \<Rightarrow> track_info \<Rightarrow> path option \<Rightarrow> string \<Rightarrow> path \<Rightarrow> string list" where
  "ffmpeg_cmd t file_path track_info album_art codec output_file =
     [''ffmpeg'', ''-y'', ''-i'', str_path file_path]
     @ (case album_art of
          Some art \<Rightarrow>
            if path_exists t art
            then [''-i'', str_path art, ''-map'', ''0:a'', ''-map'', ''1:v'',
                  ''-c:v'', ''copy'', ''-disposition:v:0'', ''attached_pic'']
            else [''-map'', ''0:a'']
        | None \<Rightarrow> [''-map'', ''0:a''])
     @ [''-c:a'', codec,
        ''-b:a'', ''256k'',
        ''-movflags'', ''+faststart'',
        ''-metadata'', ''artist='' @ t_artists track_info,
        ''-metadata'', ''album='' @ t_album track_info,
        ''-metadata'', ''title='' @ t_title track_info,
        ''-metadata'', ''track='' @ py_str (t_number track_info),
        str_path output_file]"

definition embed_metadata ::
  "env \<Rightarrow> path \<Rightarrow> track_info \<Rightarrow> path option \<Rightarrow> nat \<Rightarrow> world \<Rightarrow> path option \<times> world" where
  "embed_metadata E file_path track_info album_art pad_digits w =
     (let (codec, w1) = get_ffmpeg_aac_codec E w;
          output_file = path_join (path_parent file_path) (output_name track_info pad_digits);
          cmd = ffmpeg_cmd (fs w1) file_path track_info album_art codec output_file;
          (returncode, t) = ffmpeg E (tick w1) cmd (fs w1);
          w2 = emit (Ffmpeg cmd returncode) (w1\<lparr>fs := t\<rparr>)
      in if returncode = 0
         then (Some output_file, emit (Unlink file_path) (w2\<lparr>fs := unlink (fs w2) file_path\<rparr>))
         else (None, w2))"

text \<open>
  \<^verbatim>\<open>
  files = sorted([f for f in folder.iterdir()
                  if f.is_file() and f.suffix.lower() in {'.mp3', '.flac', '.wav', '.ogg'}])
  \<close>
\<close>

definition audio_files :: "fsys \<Rightarrow> path \<Rightarrow> path list" where
  "audio_files t folder =
     sort (filter (\<lambda>f. is_file t f \<and> py_lower (path_suffix f) \<in> set [''.mp3'', ''.flac'', ''.wav'', ''.ogg''])
                  (iterdir t folder))"

text \<open>
  \<^verbatim>\<open>
  matched = []
  for track in track_list:
      for f in files:
          if track["title"].lower() in f.stem.lower():
              matched.append((f, track, album_art_path, pad_digits))
              break
  \<close>
  \<open>first_match\<close> is the inner loop with its \<open>break\<close>; \<open>match_tracks\<close> is the outer loop and
  returns \<open>matched\<close>.
\<close>

definition title_matches :: "track_info \<Rightarrow> path \<Rightarrow> bool" where
  "title_matches track f = py_in (py_lower (t_title track)) (py_lower (path_stem f))"

fun first_match :: "track_info \<Rightarrow> path list \<Rightarrow> path option" where
  "first_match track [] = None"
| "first_match track (f # files) =
     (if title_matches track f then Some f else first_match track files)"

type_synonym matched_pair = "path \<times> track_info \<times> path option \<times> nat"

fun match_tracks :: "path list \<Rightarrow> path option \<Rightarrow> nat \<Rightarrow> track_info list \<Rightarrow> matched_pair list" where
  "match_tracks files album_art_path pad_digits [] = []"
| "match_tracks files album_art_path pad_digits (track # track_list) =
     (case first_match track files of
        Some f \<Rightarrow> (f, track, album_art_path, pad_digits)
                    # match_tracks files album_art_path pad_digits track_list
      | None \<Rightarrow> match_tracks files album_art_path pad_digits track_list)"

text \<open>
  \<open>executor.map(lambda args: embed_metadata(*args), matched)\<close>: every pair is handed to
  \<open>embed_metadata\<close> and the results come back in the order of \<open>matched\<close>.
\<close>

fun embed_all :: "env \<Rightarrow> matched_pair list \<Rightarrow> world \<Rightarrow> path option list \<times> world" where
  "embed_all E [] w = ([], w)"
| "embed_all E ((f, track, art, pad) # matched) w =
     (let (output_file, w1) = embed_metadata E f track art pad w;
          (outputs, w2) = embed_all E matched w1
      in (output_file # outputs, w2))"

text \<open>\<open>album_art_path = download_album_art(album_art_url) if album_art_url else None\<close>\<close>

definition art_path_of :: "env \<Rightarrow> string option \<Rightarrow> world \<Rightarrow> path option \<times> world" where
  "art_path_of E album_art_url w =
     (case album_art_url of
        Some url \<Rightarrow> if url = [] then (None, w) else download_album_art E url w
      | None \<Rightarrow> (None, w))"

text \<open>\<open>pad_digits = len(str(len(track_list)))\<close>\<close>

definition pad_digits_of :: "track_info list \<Rightarrow> nat" where
  "pad_digits_of track_list = length (py_str (int (length track_list)))"

definition convert_to_aac_parallel ::
  "env \<Rightarrow> path \<Rightarrow> track_info list \<Rightarrow> string option \<Rightarrow> nat \<Rightarrow> world \<Rightarrow> nat \<times> world" where
  "convert_to_aac_parallel E folder track_list album_art_url max_workers w =
     (let files = audio_files (fs w) folder;
          (album_art_path, w1) = art_path_of E album_art_url w;
          pad_digits = pad_digits_of track_list;
          matched = match_tracks files album_art_path pad_digits track_list;
          (outputs, w2) = embed_all E matched w1;
          converted = length (filter (\<lambda>output_file. output_file \<noteq> None) outputs)
      in (converted, w2))"

section \<open>SpotDL download\<close>

text \<open>
  \<^verbatim>\<open>
  for attempt in range(1, retries + 2):
      cmd = ["spotdl", "download", url, "--output", output_template,
             "--format", fmt, "--threads", "8"]
      if fmt == "mp3" and bitrate:
          cmd += ["--bitrate", bitrate]
      result = subprocess.run(cmd, capture_output=True, text=True)
      if result.returncode == 0:
          return target_folder
      time.sleep(2 ** attempt)  # backoff
  return None
  \<close>
  \<open>spotdl_attempts\<close> is this loop over the attempt numbers that are left.
\<close>

definition spotdl_cmd :: "string \<Rightarrow> string \<Rightarrow> string \<Rightarrow> string option \<Rightarrow> string list" where
  "spotdl_cmd url output_template fmt bitrate =
     [''spotdl'', ''download'', url, ''--output'', output_template, ''--format'', fmt, ''--threads'', ''8'']
     @ (case bitrate of
          Some b \<Rightarrow> if fmt = ''mp3'' \<and> b \<noteq> [] then [''--bitrate'', b] else []
        | None \<Rightarrow> [])"

fun spotdl_attempts ::
  "env \<Rightarrow> string \<Rightarrow> string \<Rightarrow> string \<Rightarrow> string option \<Rightarrow> path \<Rightarrow> int list \<Rightarrow> world \<Rightarrow> path option \<times> world" where
  "spotdl_attempts E url output_template fmt bitrate target_folder [] w = (None, w)"
| "spotdl_attempts E url output_template fmt bitrate target_folder (attempt # rest) w =
     (let cmd = spotdl_cmd url output_template fmt bitrate;
          (returncode, t) = spotdl E (tick w) cmd (fs w);
          w1 = emit (Spotdl cmd returncode) (w\<lparr>fs := t\<rparr>)
      in if returncode = 0 then (Some target_folder, w1)
         else spotdl_attempts E url output_template fmt bitrate target_folder rest
                (emit (Sleep (2 ^ nat attempt)) w1))"

definition target_folder_of :: "env \<Rightarrow> string \<Rightarrow> string \<Rightarrow> path" where
  "target_folder_of E artist album = path_join (BASE_DIR E) (sanitize_filename (artist @ '' - '' @ album))"

definition run_spotdl_download ::
  "env \<Rightarrow> string \<Rightarrow> string \<Rightarrow> string \<Rightarrow> string \<Rightarrow> string option \<Rightarrow> int \<Rightarrow> world \<Rightarrow> path option \<times> world" where
  "run_spotdl_download E url artist album fmt bitrate retries w =
     (let target_folder = target_folder_of E artist album;
          w1 = emit (Mkdir target_folder) (w\<lparr>fs := mkdir_parents (fs w) target_folder\<rparr>);
          output_template = str_path (path_join target_folder ''{artists} - {title}.{output-ext}'')
      in spotdl_attempts E url output_template fmt bitrate target_folder [1 .. retries + 1] w1)"

text \<open>
  \<^verbatim>\<open>
  def run_spotdl_download_with_fallback(url, artist, album):
      folder = run_spotdl_download(url, artist, album, PREFERRED_FORMAT)
      if folder:
          return folder, PREFERRED_FORMAT
      folder = run_spotdl_download(url, artist, album, FALLBACK_FORMAT, bitrate=MP3_BITRATE)
      return folder, FALLBACK_FORMAT
  \<close>
  Both calls leave \<open>retries\<close> at its default, 2.
\<close>

definition run_spotdl_download_with_fallback ::
  "env \<Rightarrow> string \<Rightarrow> string \<Rightarrow> string \<Rightarrow> world \<Rightarrow> (path option \<times> string) \<times> world" where
  "run_spotdl_download_with_fallback E url artist album w =
     (case run_spotdl_download E url artist album PREFERRED_FORMAT None 2 w of
        (Some folder, w1) \<Rightarrow> ((Some folder, PREFERRED_FORMAT), w1)
      | (None, w1) \<Rightarrow>
          (case run_spotdl_download E url artist album FALLBACK_FORMAT (Some MP3_BITRATE) 2 w1 of
             (folder, w2) \<Rightarrow> ((folder, FALLBACK_FORMAT), w2)))"

section \<open>Main\<close>

text \<open>
  \<open>download_spotify_url(url)\<close> returns nothing; the model returns \<open>Some e\<close> when the
  exception \<open>e\<close> of the resolution leaves the function, and \<open>None\<close> when it returns.
\<close>

definition download_spotify_url :: "env \<Rightarrow> string \<Rightarrow> world \<Rightarrow> error option \<times> world" where
  "download_spotify_url E url w =
     (case get_metadata_from_url E url w of
        (Inl e, w1) \<Rightarrow> (Some e, w1)
      | (Inr None, w1) \<Rightarrow> (None, w1)
      | (Inr (Some metadata), w1) \<Rightarrow>
          (let artist = md_artist metadata;
               album = md_album metadata;
               track_list = md_tracks metadata;
               album_art_url = md_image_url metadata;
               ((folder, fmt), w2) = run_spotdl_download_with_fallback E url artist album w1
           in case folder of
                None \<Rightarrow> (None, w2)
              | Some folder \<Rightarrow>
                  if path_exists (fs w2) folder
                  then (let (num, w3) = convert_to_aac_parallel E folder track_list album_art_url 8 w2
                        in if num > 0
                           then (None, log_download E artist album (int num)
                                         (''AAC M4A (from '' @ fmt @ '')'') ''SUCCESS'' w3)
                           else (None, w3))
                  else (None, w2)))"

section \<open>Specification-side notions and example environments\<close>

text \<open>
  The track dictionary that the playlist loop builds for the present entry \<open>item\<close>
  numbered \<open>i\<close> by \<open>enumerate\<close>.
\<close>

definition present_track :: "string \<Rightarrow> nat \<times> track_obj option \<Rightarrow> track_info" where
  "present_track name e =
     (case e of (i, item) \<Rightarrow>
        \<lparr>t_number = int i, t_title = tr_name (the item),
         t_artists = py_join '', '' (tr_artists (the item)), t_album = name\<rparr>)"

text \<open>
  A small environment for the examples: one fixed token, a given catalog and given
  behaviours of the two tools; no artwork server, no encoder list.
\<close>

definition example_env ::
  "(string \<Rightarrow> string \<Rightarrow> error + response) \<Rightarrow> (nat \<Rightarrow> string list \<Rightarrow> fsys \<Rightarrow> int \<times> fsys)
     \<Rightarrow> (nat \<Rightarrow> string list \<Rightarrow> fsys \<Rightarrow> int \<times> fsys) \<Rightarrow> env" where
  "example_env cat dl enc =
     \<lparr>home_dir = [''home''], temp_dir = [''tmp''],
      token_service = (\<lambda>client_only. Inr ''token''),
      catalog = cat,
      art_service = (\<lambda>url. (404, [])),
      uuid4_hex = (\<lambda>n. ''0''),
      clock = (\<lambda>n. ''2024-01-01 00:00:00''),
      spotdl = dl,
      ffmpeg_encoders = (\<lambda>n. None),
      ffmpeg = enc\<rparr>"

text \<open>A tool that always exits with the given code and leaves the filesystem alone.\<close>

definition tool_exit :: "int \<Rightarrow> nat \<Rightarrow> string list \<Rightarrow> fsys \<Rightarrow> int \<times> fsys" where
  "tool_exit rc n cmd t = (rc, t)"

definition empty_world :: world where
  "empty_world = \<lparr>fs = \<lparr>fs_dirs = [], fs_files = []\<rparr>, trace = []\<rparr>"

definition example_track :: "string \<Rightarrow> track_obj" where
  "example_track name = \<lparr>tr_name = name, tr_artists = [''Artist''], tr_track_number = 1,
      tr_album_name = ''Album'', tr_album_images = []\<rparr>"

text \<open>A playlist of two entries whose first track has been removed from the catalog.\<close>

definition gap_playlist :: playlist_obj where
  "gap_playlist = \<lparr>pl_name = ''Mix'', pl_owner_display_name = ''Owner'', pl_images = [],
                   pl_items = [None, Some (example_track ''Song'')]\<rparr>"

definition gap_env :: env where
  "gap_env = example_env (\<lambda>url token. Inr (PlaylistResponse gap_playlist)) (tool_exit 1) (tool_exit 1)"

text \<open>
  The output file of one pair, the command line \<open>embed_metadata\<close> hands to the engine
  for it, and what the engine answers: its exit code and the filesystem it leaves.
\<close>

definition output_path :: "path \<Rightarrow> track_info \<Rightarrow> nat \<Rightarrow> path" where
  "output_path f track pad = path_parent f @ [output_name track pad]"

definition transcode_cmd :: "env \<Rightarrow> path \<Rightarrow> track_info \<Rightarrow> path option \<Rightarrow> nat \<Rightarrow> world \<Rightarrow> string list" where
  "transcode_cmd E f track art pad w =
     ffmpeg_cmd (fs w) f track art (fst (get_ffmpeg_aac_codec E w)) (output_path f track pad)"

definition transcode_run :: "env \<Rightarrow> path \<Rightarrow> track_info \<Rightarrow> path option \<Rightarrow> nat \<Rightarrow> world \<Rightarrow> int \<times> fsys" where
  "transcode_run E f track art pad w = ffmpeg E (Suc (tick w)) (transcode_cmd E f track art pad w) (fs w)"

text \<open>
  \<open>emits_only P w w'\<close>: the trace of \<open>w'\<close> is the trace of \<open>w\<close> followed by events that
  all satisfy \<open>P\<close>. \<open>new_events w w'\<close> are those events.
\<close>

definition emits_only :: "(event \<Rightarrow> bool) \<Rightarrow> world \<Rightarrow> world \<Rightarrow> bool" where
  "emits_only P w w' = (\<exists>new. trace w' = trace w @ new \<and> list_all P new)"

definition new_events :: "world \<Rightarrow> world \<Rightarrow> event list" where
  "new_events w w' = drop (length (trace w)) (trace w')"

fun is_art_event :: "event \<Rightarrow> bool" where
  "is_art_event (ArtGet url) = True"
| "is_art_event (WriteFile p) = True"
| "is_art_event e = False"

text \<open>The events of post-processing the pairs \<open>matched\<close>.\<close>

definition transcodes :: "matched_pair list \<Rightarrow> event \<Rightarrow> bool" where
  "transcodes matched e =
     (case e of
        FfmpegEncoders \<Rightarrow> True
      | Ffmpeg cmd rc \<Rightarrow> list_ex (\<lambda>(f, track, art, pad). cmd \<noteq> [] \<and> last cmd = str_path (output_path f track pad)) matched
      | Unlink f \<Rightarrow> list_ex (\<lambda>(f', track, art, pad). f' = f) matched
      | _ \<Rightarrow> False)"

text \<open>One downloaded file, one track, no catalog.\<close>

definition one_file_world :: world where
  "one_file_world = \<lparr>fs = \<lparr>fs_dirs = [[''d'']], fs_files = [([''d'', ''x - a.mp3''], ''data'')]\<rparr>, trace = []\<rparr>"

definition one_track :: "track_info list" where
  "one_track = [\<lparr>t_number = 1, t_title = ''A'', t_artists = ''x'', t_album = ''y''\<rparr>]"

definition no_catalog :: "string \<Rightarrow> string \<Rightarrow> error + response" where
  "no_catalog url token = Inl HTTPError"

definition transcoding_env :: env where
  "transcoding_env = example_env no_catalog (tool_exit 1) (tool_exit 0)"


definition failing_env :: env where
  "failing_env = example_env no_catalog (tool_exit 1) (tool_exit 1)"

text \<open>
  The events of failed attempts: each pairs an attempt number with the non-zero exit code
  of that attempt, and is a run of the tool followed by the sleep of \<open>2 ** attempt\<close>.
  \<open>download_cmd\<close> is the command line \<open>run_spotdl_download\<close> builds; \<open>spotdl_runs\<close> keeps
  the runs of the tool out of a list of events. The tool of \<open>fallback_only_env\<close> fails
  unless it is asked for mp3 (\<open>cmd[6]\<close> is the format).
\<close>

definition backoff :: "string list \<Rightarrow> (int \<times> int) list \<Rightarrow> event list" where
  "backoff cmd failures =
     concat (map (\<lambda>(attempt, returncode). [Spotdl cmd returncode, Sleep (2 ^ nat attempt)]) failures)"

definition download_cmd :: "env \<Rightarrow> string \<Rightarrow> string \<Rightarrow> string \<Rightarrow> string \<Rightarrow> string option \<Rightarrow> string list" where
  "download_cmd E url artist album fmt bitrate =
     spotdl_cmd url (str_path (path_join (target_folder_of E artist album) ''{artists} - {title}.{output-ext}''))
       fmt bitrate"

fun is_spotdl :: "event \<Rightarrow> bool" where
  "is_spotdl (Spotdl cmd rc) = True"
| "is_spotdl e = False"

definition spotdl_runs :: "event list \<Rightarrow> event list" where
  "spotdl_runs evs = filter is_spotdl evs"

definition fallback_only_tool :: "nat \<Rightarrow> string list \<Rightarrow> fsys \<Rightarrow> int \<times> fsys" where
  "fallback_only_tool n cmd t = (if cmd ! 6 = ''mp3'' then 0 else 1, t)"

definition fallback_only_env :: env where
  "fallback_only_env = example_env no_catalog fallback_only_tool (tool_exit 1)"

text \<open>
  A catalog over a user's library of liked tracks that honours the page limit of the
  query, and a library of 60 tracks.
\<close>

definition library_catalog :: "track_obj option list \<Rightarrow> string \<Rightarrow> string \<Rightarrow> error + response" where
  "library_catalog library url token =
     (if url = ''https://api.spotify.com/v1/me/tracks?limit=50''
      then Inr (SavedTracksResponse (take 50 library))
      else Inl HTTPError)"

definition big_library :: "track_obj option list" where
  "big_library = replicate 60 (Some (example_track ''Song''))"

definition library_env :: env where
  "library_env = example_env (library_catalog big_library) (tool_exit 1) (tool_exit 1)"

text \<open>
  The URL shapes the resolver recognizes, said without the matching procedure: the URL
  contains \<open>liked-songs\<close>, or it contains \<open>http://open.spotify.com/\<close> or
  \<open>https://open.spotify.com/\<close> followed by \<open>album\<close>, \<open>playlist\<close> or \<open>track\<close>, a slash,
  and at least one ASCII letter or digit.
\<close>

definition recognized_shape :: "string \<Rightarrow> bool" where
  "recognized_shape url =
     (py_in ''liked-songs'' url
      \<or> (\<exists>scheme\<in>set [''http'', ''https''].
          \<exists>kind\<in>set [''album'', ''playlist'', ''track''].
          \<exists>c\<in>set ''abcdefghijklmnopqrstuvwxyzABCDEFGHIJKLMNOPQRSTUVWXYZ0123456789''.
            py_in (scheme @ ''://open.spotify.com/'' @ kind @ ''/'' @ [c]) url))"

text \<open>
  Events that append to the run log, the format label of a log line, and an environment
  for a whole successful run: the catalog knows one track, the acquisition tool leaves
  one file in the album folder and exits with 0, and so does the engine.
\<close>

fun is_log_append :: "event \<Rightarrow> bool" where
  "is_log_append (LogAppend entry) = True"
| "is_log_append e = False"

definition no_log :: "event \<Rightarrow> bool" where
  "no_log e = (\<not> is_log_append e)"









text \<open>
  Three downloaded files of which the second and the third contain the title \<open>A\<close>, and
  a track \<open>Z\<close> that none of them contains.
\<close>

definition three_files :: "path list" where
  "three_files = [[''d'', ''x - b.mp3''], [''d'', ''x - a1.mp3''], [''d'', ''x - a2.mp3'']]"

definition track_A :: track_info where
  "track_A = \<lparr>t_number = 1, t_title = ''A'', t_artists = ''x'', t_album = ''y''\<rparr>"

definition track_Z :: track_info where
  "track_Z = \<lparr>t_number = 2, t_title = ''Z'', t_artists = ''x'', t_album = ''y''\<rparr>"














definition track_B :: track_info where
  "track_B = \<lparr>t_number = 2, t_title = ''B'', t_artists = ''x'', t_album = ''y''\<rparr>"


definition file_a :: path where
  "file_a = [''d'', ''x - a.mp3'']"

definition file_b :: path where
  "file_b = [''d'', ''x - b.mp3'']"


section \<open>Properties of \<open>sanitize_filename\<close>\<close>

lemma replace_all_invalid:
  "foldl (\<lambda>name char. py_replace char CHR ''_'' name) s cs =
     map (\<lambda>x. if x \<in> set cs then CHR ''_'' else x) s"
proof (induction cs arbitrary: s)
  case Nil
  then show ?case by simp
next
  case (Cons c cs)
  show ?case
  proof -
    have "foldl (\<lambda>name char. py_replace char CHR ''_'' name) s (c # cs) =
          map (\<lambda>x. if x \<in> set cs then CHR ''_'' else x) (py_replace c CHR ''_'' s)"
      by (simp add: Cons.IH)
    also have "\<dots> = map (\<lambda>x. if x \<in> set (c # cs) then CHR ''_'' else x) s"
      by (simp add: py_replace_def)
    finally show ?thesis .
  qed
qed

lemma set_py_strip: "set (py_strip chars s) \<subseteq> set s"
  unfolding py_strip_def
  by (metis set_rev set_dropWhileD subsetI)

lemma sanitize_filename_no_invalid:
  "c \<in> set invalid_chars \<Longrightarrow> c \<notin> set (sanitize_filename s)"
proof
  assume c: "c \<in> set invalid_chars" and "c \<in> set (sanitize_filename s)"
  then have "c \<in> set (py_strip ''. '' (map (\<lambda>x. if x \<in> set invalid_chars then CHR ''_'' else x) s))"
    unfolding sanitize_filename_def replace_all_invalid by (meson in_set_takeD)
  then have "c \<in> set (map (\<lambda>x. if x \<in> set invalid_chars then CHR ''_'' else x) s)"
    using set_py_strip by blast
  then have "c = CHR ''_'' \<or> c \<notin> set invalid_chars" by (auto split: if_splits)
  with c show False by (auto simp: invalid_chars_def)
qed

lemma sanitize_filename_length: "length (sanitize_filename s) \<le> 200"
  by (simp add: sanitize_filename_def)

lemma py_strip_hd: "py_strip chars s \<noteq> [] \<Longrightarrow> hd (py_strip chars s) \<notin> set chars"
proof -
  assume ne: "py_strip chars s \<noteq> []"
  let ?d = "dropWhile (\<lambda>x. x \<in> set chars) s"
  let ?r = "dropWhile (\<lambda>x. x \<in> set chars) (rev ?d)"
  have r: "?r \<noteq> []" using ne unfolding py_strip_def rev_is_Nil_conv .
  have dne: "?d \<noteq> []"
  proof
    assume "?d = []"
    then have "?r = []" by (simp del: dropWhile_eq_Nil_conv)
    with r show False by blast
  qed
  have "hd (rev ?r) = last ?r" using r by (simp add: hd_rev)
  also have "\<dots> = last (rev ?d)" using r
    by (metis (no_types, lifting) last_appendR takeWhile_dropWhile_id)
  also have "\<dots> = hd ?d" using dne by (simp add: last_rev)
  finally have "hd (py_strip chars s) = hd ?d" by (simp add: py_strip_def)
  moreover have "hd ?d \<notin> set chars" using dne hd_dropWhile by blast
  ultimately show ?thesis by simp
qed

lemma sanitize_filename_first:
  "sanitize_filename s \<noteq> [] \<Longrightarrow> hd (sanitize_filename s) \<notin> set ''. ''"
  unfolding sanitize_filename_def
  by (metis hd_take py_strip_hd zero_less_numeral take_Nil)

text \<open>
  A name with nothing to replace and nothing to strip is only cut to 200 characters.
\<close>

lemma sanitize_filename_clean:
  assumes "set s \<inter> set invalid_chars = {}" and "s \<noteq> []"
    and "hd s \<notin> set ''. ''" and "last s \<notin> set ''. ''"
  shows "sanitize_filename s = take 200 s"
proof -
  have 1: "map (\<lambda>x. if x \<in> set invalid_chars then CHR ''_'' else x) s = s"
    using assms(1) by (intro map_idI) auto
  have 2: "dropWhile (\<lambda>x. x \<in> set ''. '') s = s"
    using assms(2,3) by (cases s) auto
  have 3: "dropWhile (\<lambda>x. x \<in> set ''. '') (rev s) = rev s"
    using assms(2,4) by (cases "rev s") (auto simp: last_rev[symmetric])
  show ?thesis unfolding sanitize_filename_def replace_all_invalid 1 py_strip_def 2 3 by simp
qed

text \<open>
  Claim C10: for every input, \<open>sanitize_filename\<close> returns a string with none of the
  characters \<open>< > : " / \ | ? *\<close>, that does not begin or end with a dot or a space, and
  of length at most 200.

  The first and the last part hold (\<open>sanitize_filename_no_invalid\<close>,
  \<open>sanitize_filename_length\<close>), and the result never begins with a dot or a space
  (\<open>sanitize_filename_first\<close>). But the dots and spaces are stripped before the string
  is cut to 200 characters, so the cut can expose one at the end: for 199 letters
  followed by a space and one more letter the result is 200 characters long and ends
  with the space.
\<close>

theorem sanitize_filename_trailing_space:
  "sanitize_filename (replicate 199 CHR ''a'' @ '' b'') = replicate 199 CHR ''a'' @ '' ''
   \<and> last (sanitize_filename (replicate 199 CHR ''a'' @ '' b'')) = CHR '' ''"
proof -
  have "sanitize_filename (replicate 199 CHR ''a'' @ '' b'') = take 200 (replicate 199 CHR ''a'' @ '' b'')"
    by (rule sanitize_filename_clean) (auto simp: invalid_chars_def)
  then show ?thesis by simp
qed

section \<open>The track matcher\<close>

lemma first_match_SomeD:
  "first_match track files = Some f \<Longrightarrow> f \<in> set files \<and> title_matches track f"
  by (induction files) (auto split: if_splits)

lemma first_match_None_iff:
  "first_match track files = None \<longleftrightarrow> (\<forall>f\<in>set files. \<not> title_matches track f)"
  by (induction files) auto

lemma match_tracks_tracks:
  "map (fst \<circ> snd) (match_tracks files art pad track_list) =
     filter (\<lambda>track. \<exists>f\<in>set files. title_matches track f) track_list"
proof (induction track_list)
  case Nil
  then show ?case by simp
next
  case (Cons track track_list)
  show ?case
  proof (cases "first_match track files")
    case None
    then have "\<forall>f\<in>set files. \<not> title_matches track f" by (simp add: first_match_None_iff)
    then show ?thesis using None Cons.IH by simp
  next
    case (Some f)
    then have "\<exists>f\<in>set files. title_matches track f" using first_match_SomeD by blast
    then show ?thesis using Some Cons.IH by simp
  qed
qed

lemma match_tracks_member:
  "(f, track, a, p) \<in> set (match_tracks files art pad track_list) \<Longrightarrow>
     first_match track files = Some f \<and> track \<in> set track_list \<and> a = art \<and> p = pad"
  by (induction track_list) (auto split: option.splits)

lemma py_lower_eval:
  "py_lower [] = []"
  "py_lower (c # cs) = lower_char c # py_lower cs"
  by (simp_all add: py_lower_def)

text \<open>
  Claim C1, as stated: the matching loop never assigns the same file to two different
  tracks. The loop scans the whole file list for every track and keeps no record of the
  files already taken, so a file whose stem contains two titles goes to both tracks.
  With the files \<open>Artist - Intro.flac\<close> and \<open>Artist - Intro (Reprise).flac\<close> (sorted, the
  second comes first) and the tracks \<open>Intro\<close> and \<open>Intro (Reprise)\<close>, both tracks get
  \<open>Artist - Intro (Reprise).flac\<close>.
\<close>

theorem match_tracks_shared_file_counterexample:
  "map (\<lambda>(f, track, a, p). (f, t_number track))
     (match_tracks
        (sort [[''d'', ''Artist - Intro.flac''], [''d'', ''Artist - Intro (Reprise).flac'']]) None 1
        [\<lparr>t_number = 1, t_title = ''Intro'', t_artists = ''Artist'', t_album = ''Album''\<rparr>,
         \<lparr>t_number = 2, t_title = ''Intro (Reprise)'', t_artists = ''Artist'', t_album = ''Album''\<rparr>])
   = [([''d'', ''Artist - Intro (Reprise).flac''], 1),
      ([''d'', ''Artist - Intro (Reprise).flac''], 2)]"
  by (simp add: title_matches_def py_lower_eval lower_char_def upper_letters_def lower_letters_def
        path_stem_def path_name_def name_stem_def py_rfind_def)

lemma first_match_first:
  "first_match track files = Some f \<Longrightarrow>
     \<exists>pre post. files = pre @ f # post \<and> (\<forall>g\<in>set pre. \<not> title_matches track g)"
proof (induction files)
  case Nil
  then show ?case by simp
next
  case (Cons g files)
  show ?case
  proof (cases "title_matches track g")
    case True
    then have "f = g" using Cons.prems by simp
    then have "g # files = [] @ f # files \<and> (\<forall>h\<in>set []. \<not> title_matches track h)" by simp
    then show ?thesis by blast
  next
    case False
    then have "first_match track files = Some f" using Cons.prems by simp
    then obtain pre post where p: "files = pre @ f # post" "\<forall>h\<in>set pre. \<not> title_matches track h"
      using Cons.IH by blast
    then have "g # files = (g # pre) @ f # post \<and> (\<forall>h\<in>set (g # pre). \<not> title_matches track h)"
      using False by simp
    then show ?thesis by blast
  qed
qed

lemma three_files_matches:
  "\<not> title_matches track_A [''d'', ''x - b.mp3'']"
  "title_matches track_A [''d'', ''x - a1.mp3'']"
  "title_matches track_A [''d'', ''x - a2.mp3'']"
  "\<not> title_matches track_Z [''d'', ''x - b.mp3'']"
  "\<not> title_matches track_Z [''d'', ''x - a1.mp3'']"
  "\<not> title_matches track_Z [''d'', ''x - a2.mp3'']"
  by (simp_all add: track_A_def track_Z_def title_matches_def py_lower_eval lower_char_def upper_letters_def
        lower_letters_def path_stem_def path_name_def name_stem_def py_rfind_def)

text \<open>
  Claim C1, amended: for every file list and every track list, the matching loop gives
  each track at most one file. The tracks of the output pairs are the tracks of the list
  that have a matching file, in the order of the list; each is paired with the first
  file, in enumeration order, whose lower-cased stem contains the lower-cased title (the
  file list splits into files that do not match the track, then that file, then the
  rest); two pairs with the same track have the same file; a track with no matching
  file is absent from the output, and the loop is total (it raises nothing). One file
  may be paired with several tracks.
\<close>

theorem match_tracks_one_file_per_track:
  "map (fst \<circ> snd) (match_tracks files art pad track_list) =
      filter (\<lambda>track. \<exists>f\<in>set files. title_matches track f) track_list
   \<and> (\<forall>(f, track, a, p) \<in> set (match_tracks files art pad track_list).
         first_match track files = Some f \<and> f \<in> set files \<and> title_matches track f
         \<and> (\<exists>pre post. files = pre @ f # post \<and> (\<forall>g\<in>set pre. \<not> title_matches track g)))
   \<and> (\<forall>(f, track, a, p) \<in> set (match_tracks files art pad track_list).
       \<forall>(f', track', a', p') \<in> set (match_tracks files art pad track_list).
         track' = track \<longrightarrow> f' = f)
   \<and> (distinct track_list \<longrightarrow> distinct (map (fst \<circ> snd) (match_tracks files art pad track_list)))"
proof (intro conjI)
  show "map (fst \<circ> snd) (match_tracks files art pad track_list) =
      filter (\<lambda>track. \<exists>f\<in>set files. title_matches track f) track_list"
    by (rule match_tracks_tracks)
  show "\<forall>(f, track, a, p) \<in> set (match_tracks files art pad track_list).
         first_match track files = Some f \<and> f \<in> set files \<and> title_matches track f
         \<and> (\<exists>pre post. files = pre @ f # post \<and> (\<forall>g\<in>set pre. \<not> title_matches track g))"
  proof clarify
    fix f track a p
    assume "(f, track, a, p) \<in> set (match_tracks files art pad track_list)"
    then have fm: "first_match track files = Some f" using match_tracks_member by blast
    from first_match_SomeD[OF fm] first_match_first[OF fm] fm
    show "first_match track files = Some f \<and> f \<in> set files \<and> title_matches track f
         \<and> (\<exists>pre post. files = pre @ f # post \<and> (\<forall>g\<in>set pre. \<not> title_matches track g))"
      by blast
  qed
  show "\<forall>(f, track, a, p) \<in> set (match_tracks files art pad track_list).
       \<forall>(f', track', a', p') \<in> set (match_tracks files art pad track_list).
         track' = track \<longrightarrow> f' = f"
  proof clarify
    fix f track a p f' a' p'
    assume 1: "(f, track, a, p) \<in> set (match_tracks files art pad track_list)"
      and 2: "(f', track, a', p') \<in> set (match_tracks files art pad track_list)"
    from match_tracks_member[OF 1] match_tracks_member[OF 2] show "f' = f" by simp
  qed
  show "distinct track_list \<longrightarrow> distinct (map (fst \<circ> snd) (match_tracks files art pad track_list))"
    by (simp add: match_tracks_tracks)
qed

theorem match_tracks_one_file_per_track_witness:
  "distinct [track_A, track_Z]
   \<and> match_tracks three_files None 1 [track_A, track_Z] = [([''d'', ''x - a1.mp3''], track_A, None, 1)]
   \<and> three_files = [[''d'', ''x - b.mp3'']] @ [''d'', ''x - a1.mp3''] # [[''d'', ''x - a2.mp3'']]
   \<and> \<not> title_matches track_A [''d'', ''x - b.mp3'']
   \<and> title_matches track_A [''d'', ''x - a1.mp3'']
   \<and> title_matches track_A [''d'', ''x - a2.mp3'']
   \<and> (\<exists>pre post. three_files = pre @ [''d'', ''x - a1.mp3''] # post
          \<and> list_all (\<lambda>g. \<not> title_matches track_A g) pre)
   \<and> distinct (map (fst \<circ> snd) (match_tracks three_files None 1 [track_A, track_Z]))"
proof -
  have d: "distinct [track_A, track_Z]" by (simp add: track_A_def track_Z_def)
  have m: "match_tracks three_files None 1 [track_A, track_Z] = [([''d'', ''x - a1.mp3''], track_A, None, 1)]"
    by (simp add: three_files_def three_files_matches)
  have mem: "([''d'', ''x - a1.mp3''], track_A, None, 1) \<in> set (match_tracks three_files None 1 [track_A, track_Z])"
    unfolding m by simp
  have s: "three_files = [[''d'', ''x - b.mp3'']] @ [''d'', ''x - a1.mp3''] # [[''d'', ''x - a2.mp3'']]"
    by (simp add: three_files_def)
  from match_tracks_one_file_per_track[of three_files None 1 "[track_A, track_Z]"] mem
  have "\<exists>pre post. three_files = pre @ [''d'', ''x - a1.mp3''] # post
          \<and> (\<forall>g\<in>set pre. \<not> title_matches track_A g)"
    by fast
  then have p: "\<exists>pre post. three_files = pre @ [''d'', ''x - a1.mp3''] # post
          \<and> list_all (\<lambda>g. \<not> title_matches track_A g) pre"
    by (simp add: list_all_iff)
  from match_tracks_one_file_per_track[of three_files None 1 "[track_A, track_Z]"] d
  have dd: "distinct (map (fst \<circ> snd) (match_tracks three_files None 1 [track_A, track_Z]))" by blast
  from d m s p dd three_files_matches(1,2,3) show ?thesis by blast
qed

section \<open>Playlist positions\<close>

lemma playlist_tracks_enumerate:
  "playlist_tracks name (int n) items =
     map (present_track name) (filter (\<lambda>(i, item). item \<noteq> None) (enumerate n items))"
proof (induction items arbitrary: n)
  case Nil
  then show ?case by simp
next
  case (Cons item items)
  have step: "int n + 1 = int (Suc n)" by simp
  show ?case
    by (cases item) (simp_all add: step Cons.IH present_track_def del: of_nat_Suc)
qed

lemma enumerate_strict: "sorted_wrt (\<lambda>a b. fst a < fst b) (enumerate n xs)"
proof -
  have "sorted_wrt (<) (map fst (enumerate n xs))" by simp
  then show ?thesis by (simp only: sorted_wrt_map)
qed

lemma playlist_tracks_numbers:
  "map t_number (playlist_tracks name (int n) items) =
     map (\<lambda>e. int (fst e)) (filter (\<lambda>(i, item). item \<noteq> None) (enumerate n items))"
  by (simp add: playlist_tracks_enumerate present_track_def comp_def case_prod_beta)

lemma playlist_tracks_increasing:
  "sorted_wrt (<) (map t_number (playlist_tracks name (int n) items))"
proof -
  have "sorted_wrt (\<lambda>a b. fst a < fst b) (filter (\<lambda>(i, item). item \<noteq> None) (enumerate n items))"
    by (rule sorted_wrt_filter) (rule enumerate_strict)
  then show ?thesis
    by (simp add: playlist_tracks_numbers sorted_wrt_map)
qed

lemma playlist_tracks_no_null:
  "None \<notin> set items \<Longrightarrow> map t_number (playlist_tracks name (int n) items) = map int [n..<n + length items]"
proof -
  assume nn: "None \<notin> set items"
  have "filter (\<lambda>(i, item). item \<noteq> None) (enumerate n items) = enumerate n items"
  proof (rule filter_True, clarify)
    fix i item assume "(i, item) \<in> set (enumerate n items)"
    then have "item \<in> set items" unfolding enumerate_eq_zip by (rule set_zip_rightD)
    with nn show "\<exists>y. item = Some y" by (cases item) auto
  qed
  then have "map t_number (playlist_tracks name (int n) items) = map (\<lambda>e. int (fst e)) (enumerate n items)"
    by (simp add: playlist_tracks_numbers)
  also have "\<dots> = map int (map fst (enumerate n items))" by (simp only: map_map comp_def)
  also have "\<dots> = map int [n..<n + length items]" by (simp only: map_fst_enumerate)
  finally show ?thesis .
qed

text \<open>
  Claim C2, amended: for every playlist response, \<open>get_playlist_metadata\<close> skips the
  entries whose track is null, keeps the others in order, and gives each included track
  the 1-based number of its slot in the response, the skipped slots counted. The
  positions are therefore strictly increasing, and they are exactly 1, 2, ..., n when no
  entry of the response is null.
\<close>

theorem get_playlist_metadata_positions:
  assumes "catalog E (''https://api.spotify.com/v1/playlists/'' @ spotify_id) token = Inr (PlaylistResponse data)"
  shows "\<exists>md. fst (get_playlist_metadata E spotify_id token w) = Inr md
     \<and> md_tracks md = map (present_track (pl_name data))
                         (filter (\<lambda>(i, item). item \<noteq> None) (enumerate 1 (pl_items data)))
     \<and> map t_number (md_tracks md) =
         map (\<lambda>e. int (fst e)) (filter (\<lambda>(i, item). item \<noteq> None) (enumerate 1 (pl_items data)))
     \<and> sorted_wrt (<) (map t_number (md_tracks md))
     \<and> (None \<notin> set (pl_items data) \<longrightarrow>
          map t_number (md_tracks md) = map int [1..<1 + length (pl_items data)])"
proof -
  let ?md = "\<lparr>md_artist = pl_owner_display_name data, md_album = pl_name data,
              md_tracks = playlist_tracks (pl_name data) 1 (pl_items data),
              md_image_url = first_image (pl_images data)\<rparr>"
  have one: "(1::int) = int 1" by simp
  have r: "fst (get_playlist_metadata E spotify_id token w) = Inr ?md"
    using assms by (simp add: get_playlist_metadata_def catalog_get_def)
  have 1: "md_tracks ?md = map (present_track (pl_name data))
                         (filter (\<lambda>(i, item). item \<noteq> None) (enumerate 1 (pl_items data)))"
    using playlist_tracks_enumerate[of _ 1] by simp
  have 2: "map t_number (md_tracks ?md) =
         map (\<lambda>e. int (fst e)) (filter (\<lambda>(i, item). item \<noteq> None) (enumerate 1 (pl_items data)))"
    using playlist_tracks_numbers[of _ 1] by simp
  have 3: "sorted_wrt (<) (map t_number (md_tracks ?md))"
    using playlist_tracks_increasing[of _ 1] by simp
  have 4: "None \<notin> set (pl_items data) \<longrightarrow>
          map t_number (md_tracks ?md) = map int [1..<1 + length (pl_items data)]"
    using playlist_tracks_no_null[of _ _ 1] by simp
  from r 1 2 3 4 show ?thesis by blast
qed

text \<open>
  Claim C2, as stated: the positions of the included tracks are 1, 2, ..., n with no
  gaps. The position is the index that \<open>enumerate\<close> gives to the slot, so a playlist
  whose first entry is null and whose second is present yields one track with
  position 2.
\<close>

theorem get_playlist_metadata_gap_counterexample:
  "fst (get_playlist_metadata
          gap_env
          ''abc'' ''token'' empty_world)
   = Inr \<lparr>md_artist = ''Owner'', md_album = ''Mix'',
          md_tracks = [\<lparr>t_number = 2, t_title = ''Song'', t_artists = ''Artist'', t_album = ''Mix''\<rparr>],
          md_image_url = None\<rparr>"
  by (simp add: get_playlist_metadata_def catalog_get_def gap_env_def example_env_def gap_playlist_def
        example_track_def first_image_def)

theorem get_playlist_metadata_positions_witness:
  "catalog gap_env
      (''https://api.spotify.com/v1/playlists/'' @ ''abc'') ''token'' = Inr (PlaylistResponse gap_playlist)
   \<and> (\<exists>md. fst (get_playlist_metadata
          gap_env
          ''abc'' ''token'' empty_world) = Inr md
       \<and> map t_number (md_tracks md) = [2])"
proof -
  let ?E = "gap_env"
  have h: "catalog ?E (''https://api.spotify.com/v1/playlists/'' @ ''abc'') ''token'' = Inr (PlaylistResponse gap_playlist)"
    by (simp add: gap_env_def example_env_def)
  have e: "map (\<lambda>e. int (fst e)) (filter (\<lambda>(i, item). item \<noteq> None) (enumerate 1 (pl_items gap_playlist))) = [2]"
    by (simp add: gap_playlist_def)
  from get_playlist_metadata_positions[OF h, of empty_world] e h show ?thesis by auto
qed

section \<open>Decimal strings and zero padding\<close>

lemma str_nat_small: "n < 10 \<Longrightarrow> str_nat n = [digit_char n]"
  by (simp add: str_nat.simps[of n])

lemma str_nat_big: "\<not> n < 10 \<Longrightarrow> str_nat n = str_nat (n div 10) @ [digit_char (n mod 10)]"
  by (simp add: str_nat.simps[of n])

lemma length_str_nat_bounds:
  "1 \<le> length (str_nat n) \<and> n < 10 ^ length (str_nat n) \<and> (n \<noteq> 0 \<longrightarrow> 10 ^ (length (str_nat n) - 1) \<le> n)"
proof (induction n rule: str_nat.induct)
  case (1 n)
  show ?case
  proof (cases "n < 10")
    case True
    then show ?thesis by (simp add: str_nat_small)
  next
    case False
    then have IH: "1 \<le> length (str_nat (n div 10))" "n div 10 < 10 ^ length (str_nat (n div 10))"
        "10 ^ (length (str_nat (n div 10)) - 1) \<le> n div 10"
      using 1 by auto
    have len: "length (str_nat n) = Suc (length (str_nat (n div 10)))"
      using False by (simp add: str_nat_big)
    have up: "n < 10 ^ Suc (length (str_nat (n div 10)))"
      using IH(2) by simp
    have "10 * 10 ^ (length (str_nat (n div 10)) - 1) \<le> 10 * (n div 10)"
      using IH(3) by simp
    also have "\<dots> \<le> n" by simp
    finally have lo: "10 ^ length (str_nat (n div 10)) \<le> n"
      using IH(1) by (cases "length (str_nat (n div 10))") auto
    show ?thesis using len up lo by simp
  qed
qed

lemma pad_digits_of_bounds:
  "1 \<le> pad_digits_of track_list
   \<and> length track_list < 10 ^ pad_digits_of track_list
   \<and> (track_list \<noteq> [] \<longrightarrow> 10 ^ (pad_digits_of track_list - 1) \<le> length track_list)"
  using length_str_nat_bounds[of "length track_list"]
  by (simp add: pad_digits_of_def py_str_def)

lemma pad_9: "length track_list = 9 \<Longrightarrow> pad_digits_of track_list = 1"
  by (simp add: pad_digits_of_def py_str_def str_nat_small)

lemma pad_10: "length track_list = 10 \<Longrightarrow> pad_digits_of track_list = 2"
  by (simp add: pad_digits_of_def py_str_def str_nat_small str_nat_big)

lemma str_nat_no_sign: "str_nat n \<noteq> [] \<and> hd (str_nat n) \<noteq> CHR ''+'' \<and> hd (str_nat n) \<noteq> CHR ''-''"
proof (induction n rule: str_nat.induct)
  case (1 n)
  show ?case
  proof (cases "n < 10")
    case True
    then have "n \<in> {0,1,2,3,4,5,6,7,8,9}" by auto
    then show ?thesis by (auto simp: str_nat_small digit_char_def)
  next
    case False
    then show ?thesis using 1 by (simp add: str_nat_big)
  qed
qed

lemma py_zfill_nonneg:
  "0 \<le> k \<Longrightarrow> py_zfill (py_str k) width = replicate (width - length (py_str k)) CHR ''0'' @ py_str k"
  using str_nat_no_sign[of "nat k"]
  by (cases "str_nat (nat k)") (auto simp: py_zfill_def py_str_def)

lemma length_py_zfill: "length (py_zfill s width) = max width (length s)"
  by (auto simp: py_zfill_def split: list.splits)

section \<open>The events of post-processing\<close>

lemma output_name_nonempty: "output_name track pad \<noteq> []"
  by (simp add: output_name_def Let_def)

lemma get_ffmpeg_aac_codec_world: "snd (get_ffmpeg_aac_codec E w) = emit FfmpegEncoders w"
  by (simp add: get_ffmpeg_aac_codec_def split: option.splits)

lemma embed_metadata_eq:
  "embed_metadata E f track art pad w =
     (if fst (transcode_run E f track art pad w) = 0
      then (Some (output_path f track pad),
            \<lparr>fs = unlink (snd (transcode_run E f track art pad w)) f,
             trace = trace w @ [FfmpegEncoders, Ffmpeg (transcode_cmd E f track art pad w) 0, Unlink f]\<rparr>)
      else (None,
            \<lparr>fs = snd (transcode_run E f track art pad w),
             trace = trace w @ [FfmpegEncoders,
                                Ffmpeg (transcode_cmd E f track art pad w)
                                       (fst (transcode_run E f track art pad w))]\<rparr>))"
proof -
  obtain codec w1 where c: "get_ffmpeg_aac_codec E w = (codec, w1)" by (cases "get_ffmpeg_aac_codec E w")
  then have w1: "w1 = emit FfmpegEncoders w" using get_ffmpeg_aac_codec_world[of E w] by simp
  have t1: "tick w1 = Suc (tick w)" and f1: "fs w1 = fs w" by (simp_all add: w1 emit_def tick_def)
  obtain rc t where r: "ffmpeg E (Suc (tick w)) (ffmpeg_cmd (fs w) f track art codec (output_path f track pad)) (fs w) = (rc, t)"
    by (cases "ffmpeg E (Suc (tick w)) (ffmpeg_cmd (fs w) f track art codec (output_path f track pad)) (fs w)")
  have tr: "transcode_cmd E f track art pad w = ffmpeg_cmd (fs w) f track art codec (output_path f track pad)"
    by (simp add: transcode_cmd_def c)
  have run: "transcode_run E f track art pad w = (rc, t)"
    by (simp add: transcode_run_def tr r)
  have oj: "path_join (path_parent f) (output_name track pad) = output_path f track pad"
    by (simp add: path_join_def output_path_def output_name_nonempty)
  show ?thesis
    unfolding embed_metadata_def c run tr oj
    by (simp add: Let_def r[unfolded tick_def] w1 emit_def tick_def)
qed


lemma emits_only_refl: "emits_only P w w"
  by (simp add: emits_only_def)

lemma emits_only_trans:
  "emits_only P w w1 \<Longrightarrow> emits_only P w1 w2 \<Longrightarrow> emits_only P w w2"
  unfolding emits_only_def by (metis append.assoc list_all_append)

lemma emits_only_mono:
  "emits_only P w w' \<Longrightarrow> (\<And>e. P e \<Longrightarrow> Q e) \<Longrightarrow> emits_only Q w w'"
  unfolding emits_only_def by (metis (mono_tags, lifting) list_all_iff)

lemma emits_onlyI: "trace w' = trace w @ new \<Longrightarrow> list_all P new \<Longrightarrow> emits_only P w w'"
  unfolding emits_only_def by blast

lemma emits_only_new_events:
  "emits_only P w w' \<Longrightarrow> trace w' = trace w @ new_events w w' \<and> list_all P (new_events w w')"
  unfolding emits_only_def new_events_def by auto

lemma last_ffmpeg_cmd:
  "ffmpeg_cmd t f track art codec out \<noteq> [] \<and> last (ffmpeg_cmd t f track art codec out) = str_path out"
  by (simp add: ffmpeg_cmd_def)

lemma transcodes_Cons: "transcodes matched e \<Longrightarrow> transcodes (m # matched) e"
  by (cases e) (auto simp: transcodes_def)

lemma embed_metadata_emits:
  "emits_only (transcodes ((f, track, art, pad) # matched)) w (snd (embed_metadata E f track art pad w))"
proof -
  have "\<And>rc. transcodes ((f, track, art, pad) # matched) (Ffmpeg (transcode_cmd E f track art pad w) rc)"
    using last_ffmpeg_cmd by (simp add: transcodes_def transcode_cmd_def)
  then show ?thesis
    by (auto simp: embed_metadata_eq transcodes_def intro!: emits_onlyI)
qed

lemma embed_all_emits:
  "emits_only (transcodes matched) w (snd (embed_all E matched w))"
proof (induction matched arbitrary: w)
  case Nil
  then show ?case by (simp add: emits_only_refl)
next
  case (Cons m matched)
  obtain f track art pad where m: "m = (f, track, art, pad)" by (cases m) auto
  obtain out w1 where e: "embed_metadata E f track art pad w = (out, w1)"
    by (cases "embed_metadata E f track art pad w")
  obtain outs w2 where a: "embed_all E matched w1 = (outs, w2)"
    by (cases "embed_all E matched w1")
  have 1: "emits_only (transcodes (m # matched)) w w1"
    using embed_metadata_emits[of f track art pad matched w E] by (simp add: m e)
  have 2: "emits_only (transcodes (m # matched)) w1 w2"
    using Cons.IH[of w1] a by (auto intro: emits_only_mono transcodes_Cons)
  show ?case using emits_only_trans[OF 1 2] by (simp add: m e a)
qed


lemma download_album_art_emits:
  "emits_only is_art_event w (snd (download_album_art E url w))"
  by (auto simp: download_album_art_def emit_def Let_def emits_only_refl split: prod.splits intro!: emits_onlyI)

lemma art_path_of_emits: "emits_only is_art_event w (snd (art_path_of E album_art_url w))"
  by (auto simp: art_path_of_def emits_only_refl download_album_art_emits split: option.splits)

lemma convert_to_aac_parallel_eq:
  "convert_to_aac_parallel E folder track_list album_art_url max_workers w =
     (let matched = match_tracks (audio_files (fs w) folder) (fst (art_path_of E album_art_url w))
                      (pad_digits_of track_list) track_list;
          r = embed_all E matched (snd (art_path_of E album_art_url w))
      in (length (filter (\<lambda>output_file. output_file \<noteq> None) (fst r)), snd r))"
  by (simp add: convert_to_aac_parallel_def Let_def split: prod.splits)

lemma audio_files_parent: "f \<in> set (audio_files t folder) \<Longrightarrow> path_parent f = folder"
  by (auto simp: audio_files_def iterdir_def path_parent_def)

lemma convert_to_aac_parallel_emits:
  "emits_only (\<lambda>e. is_art_event e \<or>
                    transcodes (match_tracks (audio_files (fs w) folder) (fst (art_path_of E album_art_url w))
                                  (pad_digits_of track_list) track_list) e)
     w (snd (convert_to_aac_parallel E folder track_list album_art_url max_workers w))"
proof -
  let ?w1 = "snd (art_path_of E album_art_url w)"
  let ?m = "match_tracks (audio_files (fs w) folder) (fst (art_path_of E album_art_url w))
                                  (pad_digits_of track_list) track_list"
  have 1: "emits_only (\<lambda>e. is_art_event e \<or> transcodes ?m e) w ?w1"
    by (rule emits_only_mono[OF art_path_of_emits]) simp
  have 2: "emits_only (\<lambda>e. is_art_event e \<or> transcodes ?m e) ?w1 (snd (embed_all E ?m ?w1))"
    by (rule emits_only_mono[OF embed_all_emits]) simp
  show ?thesis using emits_only_trans[OF 1 2] by (simp add: convert_to_aac_parallel_eq Let_def)
qed

text \<open>
  Claim C7: for every track list, the zero-padding width \<open>pad_digits\<close> is the number of
  decimal digits of the list length: it is the \<open>w \<ge> 1\<close> with \<open>len < 10 ^ w\<close> and, for
  a non-empty list, \<open>10 ^ (w - 1) \<le> len\<close> (9 tracks give 1, 10 tracks give 2). Every
  transcoding command that \<open>convert_to_aac_parallel\<close> issues writes to the file, in the
  folder, named by the track number padded to that width (zeros in front of the decimal
  digits), the separator \<open>" - "\<close>, the sanitized title and the extension \<open>.m4a\<close>, for
  a track of the list.
\<close>

theorem pad_width_and_output_names:
  "1 \<le> pad_digits_of track_list
   \<and> length track_list < 10 ^ pad_digits_of track_list
   \<and> (track_list \<noteq> [] \<longrightarrow> 10 ^ (pad_digits_of track_list - 1) \<le> length track_list)
   \<and> (length track_list = 9 \<longrightarrow> pad_digits_of track_list = 1)
   \<and> (length track_list = 10 \<longrightarrow> pad_digits_of track_list = 2)
   \<and> (\<forall>cmd rc. Ffmpeg cmd rc \<in> set (new_events w (snd (convert_to_aac_parallel E folder track_list album_art_url max_workers w)))
         \<longrightarrow> (\<exists>track\<in>set track_list. cmd \<noteq> [] \<and>
                 last cmd = str_path (folder @ [py_zfill (py_str (t_number track)) (pad_digits_of track_list)
                                                 @ '' - '' @ sanitize_filename (t_title track) @ ''.m4a''])))
   \<and> (0 \<le> k \<longrightarrow> py_zfill (py_str k) width = replicate (width - length (py_str k)) CHR ''0'' @ py_str k)"
proof (intro conjI)
  show "1 \<le> pad_digits_of track_list" "length track_list < 10 ^ pad_digits_of track_list"
    "track_list \<noteq> [] \<longrightarrow> 10 ^ (pad_digits_of track_list - 1) \<le> length track_list"
    using pad_digits_of_bounds[of track_list] by simp_all
  show "length track_list = 9 \<longrightarrow> pad_digits_of track_list = 1" by (simp add: pad_9)
  show "length track_list = 10 \<longrightarrow> pad_digits_of track_list = 2" by (simp add: pad_10)
  show "0 \<le> k \<longrightarrow> py_zfill (py_str k) width = replicate (width - length (py_str k)) CHR ''0'' @ py_str k"
    by (simp add: py_zfill_nonneg)
  let ?files = "audio_files (fs w) folder"
  let ?m = "match_tracks ?files (fst (art_path_of E album_art_url w)) (pad_digits_of track_list) track_list"
  let ?w' = "snd (convert_to_aac_parallel E folder track_list album_art_url max_workers w)"
  show "\<forall>cmd rc. Ffmpeg cmd rc \<in> set (new_events w ?w')
         \<longrightarrow> (\<exists>track\<in>set track_list. cmd \<noteq> [] \<and>
                 last cmd = str_path (folder @ [py_zfill (py_str (t_number track)) (pad_digits_of track_list)
                                                 @ '' - '' @ sanitize_filename (t_title track) @ ''.m4a'']))"
  proof (intro allI impI)
    fix cmd rc assume c: "Ffmpeg cmd rc \<in> set (new_events w ?w')"
    have "list_all (\<lambda>e. is_art_event e \<or> transcodes ?m e) (new_events w ?w')"
      using emits_only_new_events[OF convert_to_aac_parallel_emits] by blast
    with c have "is_art_event (Ffmpeg cmd rc) \<or> transcodes ?m (Ffmpeg cmd rc)"
      by (auto simp: list_all_iff)
    then have "list_ex (\<lambda>(f, track, art, pad). cmd \<noteq> [] \<and> last cmd = str_path (output_path f track pad)) ?m"
      by (simp add: transcodes_def)
    then obtain f track art pad where mem: "(f, track, art, pad) \<in> set ?m"
      and l: "cmd \<noteq> []" "last cmd = str_path (output_path f track pad)"
      by (auto simp: list_ex_iff)
    from match_tracks_member[OF mem] have fm: "first_match track ?files = Some f"
      and tr: "track \<in> set track_list" and p: "pad = pad_digits_of track_list" by simp_all
    from first_match_SomeD[OF fm] have "path_parent f = folder" using audio_files_parent by blast
    then have "output_path f track pad = folder @ [py_zfill (py_str (t_number track)) (pad_digits_of track_list)
                                                 @ '' - '' @ sanitize_filename (t_title track) @ ''.m4a'']"
      by (simp add: output_path_def output_name_def p)
    with l tr show "\<exists>track\<in>set track_list. cmd \<noteq> [] \<and>
                 last cmd = str_path (folder @ [py_zfill (py_str (t_number track)) (pad_digits_of track_list)
                                                 @ '' - '' @ sanitize_filename (t_title track) @ ''.m4a''])"
      by auto
  qed
qed

lemma audio_files_one: "audio_files (fs one_file_world) [''d''] = [[''d'', ''x - a.mp3'']]"
  by (simp add: audio_files_def one_file_world_def iterdir_def is_file_def path_suffix_def path_name_def
        name_suffix_def py_rfind_def py_lower_eval lower_char_def upper_letters_def lower_letters_def)

lemma match_one: "match_tracks [[''d'', ''x - a.mp3'']] None pad one_track
     = [([''d'', ''x - a.mp3''], \<lparr>t_number = 1, t_title = ''A'', t_artists = ''x'', t_album = ''y''\<rparr>, None, pad)]"
  by (simp add: one_track_def title_matches_def py_lower_eval lower_char_def upper_letters_def lower_letters_def
        path_stem_def path_name_def name_stem_def py_rfind_def)

lemma pad_one: "pad_digits_of one_track = 1"
  by (simp add: one_track_def pad_digits_of_def py_str_def str_nat_small)

lemma convert_one:
  "convert_to_aac_parallel transcoding_env [''d''] one_track None 4 one_file_world
   = (1, \<lparr>fs = \<lparr>fs_dirs = [[''d'']], fs_files = []\<rparr>,
          trace = [FfmpegEncoders,
                   Ffmpeg [''ffmpeg'', ''-y'', ''-i'', ''/d/x - a.mp3'', ''-map'', ''0:a'', ''-c:a'', ''aac'',
                           ''-b:a'', ''256k'', ''-movflags'', ''+faststart'', ''-metadata'', ''artist=x'',
                           ''-metadata'', ''album=y'', ''-metadata'', ''title=A'', ''-metadata'', ''track=1'',
                           ''/d/1 - A.m4a''] 0,
                   Unlink [''d'', ''x - a.mp3'']]\<rparr>)"
  unfolding convert_to_aac_parallel_eq audio_files_one pad_one
  apply (simp add: art_path_of_def match_one Let_def embed_metadata_eq transcode_run_def transcode_cmd_def transcoding_env_def example_env_def tool_exit_def
     get_ffmpeg_aac_codec_def ffmpeg_cmd_def output_path_def output_name_def path_parent_def str_path_def
     py_zfill_def py_str_def str_nat_small digit_char_def tick_def)
  apply (simp add: one_file_world_def unlink_def sanitize_filename_def invalid_chars_def py_replace_def py_strip_def)
  done

theorem pad_width_and_output_names_witness:
  "one_track \<noteq> []
   \<and> 10 ^ (pad_digits_of one_track - 1) \<le> length one_track
   \<and> Ffmpeg [''ffmpeg'', ''-y'', ''-i'', ''/d/x - a.mp3'', ''-map'', ''0:a'', ''-c:a'', ''aac'',
              ''-b:a'', ''256k'', ''-movflags'', ''+faststart'', ''-metadata'', ''artist=x'',
              ''-metadata'', ''album=y'', ''-metadata'', ''title=A'', ''-metadata'', ''track=1'',
              ''/d/1 - A.m4a''] 0
       \<in> set (new_events one_file_world
                 (snd (convert_to_aac_parallel transcoding_env [''d''] one_track None 4 one_file_world)))
   \<and> (0::int) \<le> 7 \<and> py_zfill (py_str 7) 2 = ''07''"
proof -
  have ne: "one_track \<noteq> []" by (simp add: one_track_def)
  have ev: "Ffmpeg [''ffmpeg'', ''-y'', ''-i'', ''/d/x - a.mp3'', ''-map'', ''0:a'', ''-c:a'', ''aac'',
              ''-b:a'', ''256k'', ''-movflags'', ''+faststart'', ''-metadata'', ''artist=x'',
              ''-metadata'', ''album=y'', ''-metadata'', ''title=A'', ''-metadata'', ''track=1'',
              ''/d/1 - A.m4a''] 0
       \<in> set (new_events one_file_world
                 (snd (convert_to_aac_parallel transcoding_env [''d''] one_track None 4 one_file_world)))"
    unfolding new_events_def convert_one by (simp add: one_file_world_def)
  have z: "py_zfill (py_str 7) 2 = ''07''"
    by (simp add: py_zfill_def py_str_def str_nat_small digit_char_def)
  from pad_width_and_output_names[of one_track one_file_world transcoding_env "[''d'']" None 4 7 2] ne ev z
  show ?thesis by simp
qed

section \<open>Success and failure of one pair\<close>

lemma new_events_append: "trace w' = trace w @ new \<Longrightarrow> new_events w w' = new"
  by (simp add: new_events_def)




























lemma title_matches_two:
  "title_matches track_A file_a" "\<not> title_matches track_A file_b"
  "\<not> title_matches track_B file_a" "title_matches track_B file_b"
  by (simp_all add: track_A_def track_B_def file_a_def file_b_def title_matches_def py_lower_eval lower_char_def
        upper_letters_def lower_letters_def path_stem_def path_name_def name_stem_def py_rfind_def)


lemma match_two:
  "match_tracks [file_a, file_b] None pad [track_A, track_B] =
     [(file_a, track_A, None, pad), (file_b, track_B, None, pad)]"
  by (simp add: title_matches_two)






section \<open>Retries, backoff and fallback\<close>

lemma backoff_Cons: "backoff cmd ((a, rc) # xs) = Spotdl cmd rc # Sleep (2 ^ nat a) # backoff cmd xs"
  by (simp add: backoff_def)

lemma spotdl_attempts_shape:
  "\<exists>rcs. 0 \<notin> set rcs \<and>
     ((fst (spotdl_attempts E url tmpl fmt bitrate target attempts w) = None
         \<and> length rcs = length attempts
         \<and> trace (snd (spotdl_attempts E url tmpl fmt bitrate target attempts w))
             = trace w @ backoff (spotdl_cmd url tmpl fmt bitrate) (zip attempts rcs))
      \<or> (fst (spotdl_attempts E url tmpl fmt bitrate target attempts w) = Some target
         \<and> length rcs < length attempts
         \<and> trace (snd (spotdl_attempts E url tmpl fmt bitrate target attempts w))
             = trace w @ backoff (spotdl_cmd url tmpl fmt bitrate) (zip attempts rcs)
                  @ [Spotdl (spotdl_cmd url tmpl fmt bitrate) 0]))"
proof (induction attempts arbitrary: w)
  case Nil
  then show ?case by (simp add: backoff_def)
next
  case (Cons a attempts)
  let ?cmd = "spotdl_cmd url tmpl fmt bitrate"
  obtain rc t where r: "spotdl E (tick w) ?cmd (fs w) = (rc, t)"
    by (cases "spotdl E (tick w) ?cmd (fs w)")
  show ?case
  proof (cases "rc = 0")
    case True
    have "fst (spotdl_attempts E url tmpl fmt bitrate target (a # attempts) w) = Some target"
      "trace (snd (spotdl_attempts E url tmpl fmt bitrate target (a # attempts) w)) = trace w @ [Spotdl ?cmd 0]"
      using r True by (simp_all add: Let_def emit_def)
    then show ?thesis
      by (intro exI[of _ "[]"]) (simp add: backoff_def)
  next
    case False
    let ?w2 = "emit (Sleep (2 ^ nat a)) (emit (Spotdl ?cmd rc) (w\<lparr>fs := t\<rparr>))"
    have step: "spotdl_attempts E url tmpl fmt bitrate target (a # attempts) w
                  = spotdl_attempts E url tmpl fmt bitrate target attempts ?w2"
      using r False by (simp add: Let_def)
    have tr: "trace ?w2 = trace w @ [Spotdl ?cmd rc, Sleep (2 ^ nat a)]"
      by (simp add: emit_def)
    from Cons.IH[of ?w2] obtain rcs where d: "0 \<notin> set rcs"
      "(fst (spotdl_attempts E url tmpl fmt bitrate target attempts ?w2) = None
         \<and> length rcs = length attempts
         \<and> trace (snd (spotdl_attempts E url tmpl fmt bitrate target attempts ?w2))
             = trace ?w2 @ backoff ?cmd (zip attempts rcs))
      \<or> (fst (spotdl_attempts E url tmpl fmt bitrate target attempts ?w2) = Some target
         \<and> length rcs < length attempts
         \<and> trace (snd (spotdl_attempts E url tmpl fmt bitrate target attempts ?w2))
             = trace ?w2 @ backoff ?cmd (zip attempts rcs) @ [Spotdl ?cmd 0])"
      by blast
    show ?thesis
      apply (rule exI[of _ "rc # rcs"])
      using d False unfolding step tr by (auto simp: backoff_Cons)
  qed
qed

lemma length_upto_nonneg: "0 \<le> n \<Longrightarrow> length [1..n] = nat n"
  by simp

lemma run_spotdl_download_shape:
  assumes "0 \<le> retries"
  shows "\<exists>rcs. 0 \<notin> set rcs \<and>
     ((fst (run_spotdl_download E url artist album fmt bitrate retries w) = None
         \<and> int (length rcs) = retries + 1
         \<and> trace (snd (run_spotdl_download E url artist album fmt bitrate retries w))
             = trace w @ Mkdir (target_folder_of E artist album)
                 # backoff (download_cmd E url artist album fmt bitrate) (zip [1..retries + 1] rcs))
      \<or> (fst (run_spotdl_download E url artist album fmt bitrate retries w) = Some (target_folder_of E artist album)
         \<and> int (length rcs) \<le> retries
         \<and> trace (snd (run_spotdl_download E url artist album fmt bitrate retries w))
             = trace w @ Mkdir (target_folder_of E artist album)
                 # backoff (download_cmd E url artist album fmt bitrate) (zip [1..retries + 1] rcs)
                  @ [Spotdl (download_cmd E url artist album fmt bitrate) 0]))"
proof -
  let ?target = "target_folder_of E artist album"
  let ?w1 = "emit (Mkdir ?target) (w\<lparr>fs := mkdir_parents (fs w) ?target\<rparr>)"
  let ?tmpl = "str_path (path_join ?target ''{artists} - {title}.{output-ext}'')"
  have eq: "run_spotdl_download E url artist album fmt bitrate retries w
            = spotdl_attempts E url ?tmpl fmt bitrate ?target [1..retries + 1] ?w1"
    by (simp add: run_spotdl_download_def Let_def)
  have tr: "trace ?w1 = trace w @ [Mkdir ?target]" by (simp add: emit_def)
  have len: "int (length [1..retries + 1]) = retries + 1" using assms by simp
  from spotdl_attempts_shape[of E url ?tmpl fmt bitrate ?target "[1..retries + 1]" ?w1]
  obtain rcs where d: "0 \<notin> set rcs"
     "(fst (spotdl_attempts E url ?tmpl fmt bitrate ?target [1..retries + 1] ?w1) = None
         \<and> length rcs = length [1..retries + 1]
         \<and> trace (snd (spotdl_attempts E url ?tmpl fmt bitrate ?target [1..retries + 1] ?w1))
             = trace ?w1 @ backoff (spotdl_cmd url ?tmpl fmt bitrate) (zip [1..retries + 1] rcs))
      \<or> (fst (spotdl_attempts E url ?tmpl fmt bitrate ?target [1..retries + 1] ?w1) = Some ?target
         \<and> length rcs < length [1..retries + 1]
         \<and> trace (snd (spotdl_attempts E url ?tmpl fmt bitrate ?target [1..retries + 1] ?w1))
             = trace ?w1 @ backoff (spotdl_cmd url ?tmpl fmt bitrate) (zip [1..retries + 1] rcs)
                  @ [Spotdl (spotdl_cmd url ?tmpl fmt bitrate) 0])"
    by blast
  have lt: "length rcs < length [1..retries + 1] \<Longrightarrow> int (length rcs) \<le> retries"
    using len by linarith
  show ?thesis
    apply (rule exI[of _ rcs])
    using d lt len unfolding eq tr download_cmd_def by auto
qed

lemma spotdl_runs_backoff:
  "length rcs \<le> length attempts \<Longrightarrow>
     spotdl_runs (backoff cmd (zip attempts rcs)) = map (Spotdl cmd) rcs"
proof (induction rcs arbitrary: attempts)
  case Nil
  then show ?case by (simp add: spotdl_runs_def backoff_def)
next
  case (Cons rc rcs)
  then obtain a as where a: "attempts = a # as" by (cases attempts) auto
  with Cons have "spotdl_runs (backoff cmd (zip as rcs)) = map (Spotdl cmd) rcs" by simp
  then show ?case by (simp add: a backoff_Cons spotdl_runs_def)
qed

lemma spotdl_runs_append: "spotdl_runs (xs @ ys) = spotdl_runs xs @ spotdl_runs ys"
  by (simp add: spotdl_runs_def)

lemma spotdl_runs_Mkdir: "spotdl_runs (Mkdir p # xs) = spotdl_runs xs"
  by (simp add: spotdl_runs_def)

lemma spotdl_runs_Spotdl: "spotdl_runs (Spotdl c rc # xs) = Spotdl c rc # spotdl_runs xs"
  by (simp add: spotdl_runs_def)

lemma backoff_delays_increasing: "sorted_wrt (<) (map (\<lambda>attempt. (2::int) ^ nat attempt) [1..n])"
proof -
  have "sorted_wrt (<) [1..n]" by (simp add: strict_sorted_iff)
  then have "sorted_wrt (\<lambda>a b. (2::int) ^ nat a < 2 ^ nat b) [1..n]"
    by (rule sorted_wrt_mono_rel[rotated]) auto
  then show ?thesis by (simp add: sorted_wrt_map)
qed

lemma with_fallback_eq:
  "run_spotdl_download_with_fallback E url artist album w =
     (case fst (run_spotdl_download E url artist album PREFERRED_FORMAT None 2 w) of
        Some folder \<Rightarrow> ((Some folder, PREFERRED_FORMAT),
                         snd (run_spotdl_download E url artist album PREFERRED_FORMAT None 2 w))
      | None \<Rightarrow>
          ((fst (run_spotdl_download E url artist album FALLBACK_FORMAT (Some MP3_BITRATE) 2
                  (snd (run_spotdl_download E url artist album PREFERRED_FORMAT None 2 w))),
            FALLBACK_FORMAT),
           snd (run_spotdl_download E url artist album FALLBACK_FORMAT (Some MP3_BITRATE) 2
                  (snd (run_spotdl_download E url artist album PREFERRED_FORMAT None 2 w)))))"
  by (auto simp: run_spotdl_download_with_fallback_def split: prod.splits option.splits)

lemma with_fallback_shape:
  "\<exists>rcs. 0 \<notin> set rcs \<and>
     ((fst (run_spotdl_download_with_fallback E url artist album w)
          = (Some (target_folder_of E artist album), PREFERRED_FORMAT)
       \<and> length rcs \<le> 2
       \<and> trace (snd (run_spotdl_download_with_fallback E url artist album w))
           = trace w @ Mkdir (target_folder_of E artist album)
               # backoff (download_cmd E url artist album PREFERRED_FORMAT None) (zip [1..3] rcs)
               @ [Spotdl (download_cmd E url artist album PREFERRED_FORMAT None) 0])
    \<or> (length rcs = 3 \<and>
        (\<exists>rcs'. 0 \<notin> set rcs' \<and>
          ((fst (run_spotdl_download_with_fallback E url artist album w) = (None, FALLBACK_FORMAT)
            \<and> length rcs' = 3
            \<and> trace (snd (run_spotdl_download_with_fallback E url artist album w))
               = trace w @ Mkdir (target_folder_of E artist album)
                   # backoff (download_cmd E url artist album PREFERRED_FORMAT None) (zip [1..3] rcs)
                   @ Mkdir (target_folder_of E artist album)
                   # backoff (download_cmd E url artist album FALLBACK_FORMAT (Some MP3_BITRATE)) (zip [1..3] rcs'))
         \<or> (fst (run_spotdl_download_with_fallback E url artist album w)
               = (Some (target_folder_of E artist album), FALLBACK_FORMAT)
            \<and> length rcs' \<le> 2
            \<and> trace (snd (run_spotdl_download_with_fallback E url artist album w))
               = trace w @ Mkdir (target_folder_of E artist album)
                   # backoff (download_cmd E url artist album PREFERRED_FORMAT None) (zip [1..3] rcs)
                   @ Mkdir (target_folder_of E artist album)
                   # backoff (download_cmd E url artist album FALLBACK_FORMAT (Some MP3_BITRATE)) (zip [1..3] rcs')
                   @ [Spotdl (download_cmd E url artist album FALLBACK_FORMAT (Some MP3_BITRATE)) 0])))))"
proof -
  let ?T = "target_folder_of E artist album"
  let ?cp = "download_cmd E url artist album PREFERRED_FORMAT None"
  let ?cf = "download_cmd E url artist album FALLBACK_FORMAT (Some MP3_BITRATE)"
  let ?r1 = "run_spotdl_download E url artist album PREFERRED_FORMAT None 2 w"
  let ?r2 = "run_spotdl_download E url artist album FALLBACK_FORMAT (Some MP3_BITRATE) 2 (snd ?r1)"
  from run_spotdl_download_shape[of 2 E url artist album PREFERRED_FORMAT None w]
  obtain rcs where 1: "0 \<notin> set rcs"
    "(fst ?r1 = None \<and> length rcs = 3 \<and> trace (snd ?r1) = trace w @ Mkdir ?T # backoff ?cp (zip [1..3] rcs))
     \<or> (fst ?r1 = Some ?T \<and> length rcs \<le> 2
         \<and> trace (snd ?r1) = trace w @ Mkdir ?T # backoff ?cp (zip [1..3] rcs) @ [Spotdl ?cp 0])"
    by auto
  from run_spotdl_download_shape[of 2 E url artist album FALLBACK_FORMAT "Some MP3_BITRATE" "snd ?r1"]
  obtain rcs' where 2: "0 \<notin> set rcs'"
    "(fst ?r2 = None \<and> length rcs' = 3 \<and> trace (snd ?r2) = trace (snd ?r1) @ Mkdir ?T # backoff ?cf (zip [1..3] rcs'))
     \<or> (fst ?r2 = Some ?T \<and> length rcs' \<le> 2
         \<and> trace (snd ?r2) = trace (snd ?r1) @ Mkdir ?T # backoff ?cf (zip [1..3] rcs') @ [Spotdl ?cf 0])"
    by auto
  show ?thesis
  proof (cases "fst ?r1")
    case None
    then have eq: "run_spotdl_download_with_fallback E url artist album w = ((fst ?r2, FALLBACK_FORMAT), snd ?r2)"
      by (simp add: with_fallback_eq)
    from None 1 have p: "length rcs = 3" "trace (snd ?r1) = trace w @ Mkdir ?T # backoff ?cp (zip [1..3] rcs)"
      by auto
    show ?thesis
      apply (rule exI[of _ rcs])
      apply (rule conjI[OF 1(1)])
      apply (rule disjI2)
      apply (rule conjI[OF p(1)])
      apply (rule exI[of _ rcs'])
      using 2 unfolding eq p(2) by auto
  next
    case (Some folder)
    then have eq: "run_spotdl_download_with_fallback E url artist album w = ((Some folder, PREFERRED_FORMAT), snd ?r1)"
      by (simp add: with_fallback_eq)
    show ?thesis
      apply (rule exI[of _ rcs])
      using 1 Some unfolding eq by auto
  qed
qed

lemma preferred_cmd_neq_fallback_cmd:
  "download_cmd E url artist album PREFERRED_FORMAT None
     \<noteq> download_cmd E url artist album FALLBACK_FORMAT (Some MP3_BITRATE)"
  by (simp add: download_cmd_def spotdl_cmd_def PREFERRED_FORMAT_def FALLBACK_FORMAT_def)

text \<open>
  Claim C3: for every invocation with retry count \<open>retries \<ge> 0\<close>, \<open>run_spotdl_download\<close>
  creates the target folder and then either gives up after exactly \<open>retries + 1\<close> failed
  attempts, or succeeds at an attempt that follows at most \<open>retries\<close> failed ones; every
  failed attempt numbered \<open>k\<close> (from 1) is followed by a sleep of \<open>2 ^ k\<close>, so the
  delays between consecutive attempts are strictly increasing. In
  \<open>run_spotdl_download_with_fallback\<close> (retry count 2) the fallback format is run only
  after three failed attempts of the preferred format, and the two command lines differ.
\<close>

theorem run_spotdl_download_retries:
  assumes "0 \<le> retries"
  shows "(\<exists>rcs. 0 \<notin> set rcs \<and>
     ((fst (run_spotdl_download E url artist album fmt bitrate retries w) = None
         \<and> int (length rcs) = retries + 1
         \<and> new_events w (snd (run_spotdl_download E url artist album fmt bitrate retries w))
             = Mkdir (target_folder_of E artist album)
                 # backoff (download_cmd E url artist album fmt bitrate) (zip [1..retries + 1] rcs))
      \<or> (fst (run_spotdl_download E url artist album fmt bitrate retries w) = Some (target_folder_of E artist album)
         \<and> int (length rcs) \<le> retries
         \<and> new_events w (snd (run_spotdl_download E url artist album fmt bitrate retries w))
             = Mkdir (target_folder_of E artist album)
                 # backoff (download_cmd E url artist album fmt bitrate) (zip [1..retries + 1] rcs)
                  @ [Spotdl (download_cmd E url artist album fmt bitrate) 0])))
   \<and> sorted_wrt (<) (map (\<lambda>attempt. (2::int) ^ nat attempt) [1..retries + 1])
   \<and> download_cmd E url artist album PREFERRED_FORMAT None
        \<noteq> download_cmd E url artist album FALLBACK_FORMAT (Some MP3_BITRATE)
   \<and> (\<exists>rcs. 0 \<notin> set rcs \<and>
     ((length rcs \<le> 2
       \<and> new_events w (snd (run_spotdl_download_with_fallback E url artist album w))
           = Mkdir (target_folder_of E artist album)
               # backoff (download_cmd E url artist album PREFERRED_FORMAT None) (zip [1..3] rcs)
               @ [Spotdl (download_cmd E url artist album PREFERRED_FORMAT None) 0])
    \<or> (length rcs = 3 \<and>
        (\<exists>rcs'. 0 \<notin> set rcs' \<and>
          ((length rcs' = 3
            \<and> new_events w (snd (run_spotdl_download_with_fallback E url artist album w))
               = Mkdir (target_folder_of E artist album)
                   # backoff (download_cmd E url artist album PREFERRED_FORMAT None) (zip [1..3] rcs)
                   @ Mkdir (target_folder_of E artist album)
                   # backoff (download_cmd E url artist album FALLBACK_FORMAT (Some MP3_BITRATE)) (zip [1..3] rcs'))
         \<or> (length rcs' \<le> 2
            \<and> new_events w (snd (run_spotdl_download_with_fallback E url artist album w))
               = Mkdir (target_folder_of E artist album)
                   # backoff (download_cmd E url artist album PREFERRED_FORMAT None) (zip [1..3] rcs)
                   @ Mkdir (target_folder_of E artist album)
                   # backoff (download_cmd E url artist album FALLBACK_FORMAT (Some MP3_BITRATE)) (zip [1..3] rcs')
                   @ [Spotdl (download_cmd E url artist album FALLBACK_FORMAT (Some MP3_BITRATE)) 0]))))))"
proof (intro conjI)
  show "\<exists>rcs. 0 \<notin> set rcs \<and>
     ((fst (run_spotdl_download E url artist album fmt bitrate retries w) = None
         \<and> int (length rcs) = retries + 1
         \<and> new_events w (snd (run_spotdl_download E url artist album fmt bitrate retries w))
             = Mkdir (target_folder_of E artist album)
                 # backoff (download_cmd E url artist album fmt bitrate) (zip [1..retries + 1] rcs))
      \<or> (fst (run_spotdl_download E url artist album fmt bitrate retries w) = Some (target_folder_of E artist album)
         \<and> int (length rcs) \<le> retries
         \<and> new_events w (snd (run_spotdl_download E url artist album fmt bitrate retries w))
             = Mkdir (target_folder_of E artist album)
                 # backoff (download_cmd E url artist album fmt bitrate) (zip [1..retries + 1] rcs)
                  @ [Spotdl (download_cmd E url artist album fmt bitrate) 0]))"
    using run_spotdl_download_shape[OF assms, of E url artist album fmt bitrate w]
    by (auto simp: new_events_def)
  show "sorted_wrt (<) (map (\<lambda>attempt. (2::int) ^ nat attempt) [1..retries + 1])"
    by (rule backoff_delays_increasing)
  show "download_cmd E url artist album PREFERRED_FORMAT None
        \<noteq> download_cmd E url artist album FALLBACK_FORMAT (Some MP3_BITRATE)"
    by (rule preferred_cmd_neq_fallback_cmd)
  show "\<exists>rcs. 0 \<notin> set rcs \<and>
     ((length rcs \<le> 2
       \<and> new_events w (snd (run_spotdl_download_with_fallback E url artist album w))
           = Mkdir (target_folder_of E artist album)
               # backoff (download_cmd E url artist album PREFERRED_FORMAT None) (zip [1..3] rcs)
               @ [Spotdl (download_cmd E url artist album PREFERRED_FORMAT None) 0])
    \<or> (length rcs = 3 \<and>
        (\<exists>rcs'. 0 \<notin> set rcs' \<and>
          ((length rcs' = 3
            \<and> new_events w (snd (run_spotdl_download_with_fallback E url artist album w))
               = Mkdir (target_folder_of E artist album)
                   # backoff (download_cmd E url artist album PREFERRED_FORMAT None) (zip [1..3] rcs)
                   @ Mkdir (target_folder_of E artist album)
                   # backoff (download_cmd E url artist album FALLBACK_FORMAT (Some MP3_BITRATE)) (zip [1..3] rcs'))
         \<or> (length rcs' \<le> 2
            \<and> new_events w (snd (run_spotdl_download_with_fallback E url artist album w))
               = Mkdir (target_folder_of E artist album)
                   # backoff (download_cmd E url artist album PREFERRED_FORMAT None) (zip [1..3] rcs)
                   @ Mkdir (target_folder_of E artist album)
                   # backoff (download_cmd E url artist album FALLBACK_FORMAT (Some MP3_BITRATE)) (zip [1..3] rcs')
                   @ [Spotdl (download_cmd E url artist album FALLBACK_FORMAT (Some MP3_BITRATE)) 0])))))"
  proof -
    let ?T = "target_folder_of E artist album"
    let ?cp = "download_cmd E url artist album PREFERRED_FORMAT None"
    let ?cf = "download_cmd E url artist album FALLBACK_FORMAT (Some MP3_BITRATE)"
    let ?r = "run_spotdl_download_with_fallback E url artist album w"
    from with_fallback_shape[of E url artist album w] obtain rcs where r: "0 \<notin> set rcs"
      and c: "(fst ?r = (Some ?T, PREFERRED_FORMAT) \<and> length rcs \<le> 2
               \<and> trace (snd ?r) = trace w @ Mkdir ?T # backoff ?cp (zip [1..3] rcs) @ [Spotdl ?cp 0])
            \<or> (length rcs = 3 \<and>
                (\<exists>rcs'. 0 \<notin> set rcs' \<and>
                  ((fst ?r = (None, FALLBACK_FORMAT) \<and> length rcs' = 3
                    \<and> trace (snd ?r) = trace w @ Mkdir ?T # backoff ?cp (zip [1..3] rcs)
                          @ Mkdir ?T # backoff ?cf (zip [1..3] rcs'))
                 \<or> (fst ?r = (Some ?T, FALLBACK_FORMAT) \<and> length rcs' \<le> 2
                    \<and> trace (snd ?r) = trace w @ Mkdir ?T # backoff ?cp (zip [1..3] rcs)
                          @ Mkdir ?T # backoff ?cf (zip [1..3] rcs') @ [Spotdl ?cf 0]))))"
      by blast
    from c show ?thesis
    proof (elim disjE conjE exE)
      assume "trace (snd ?r) = trace w @ Mkdir ?T # backoff ?cp (zip [1..3] rcs) @ [Spotdl ?cp 0]"
        and "length rcs \<le> 2"
      with r show ?thesis
        by (intro exI[of _ rcs]) (simp add: new_events_def)
    next
      fix rcs' assume "length rcs = 3" "0 \<notin> set rcs'" "length rcs' = 3"
        "trace (snd ?r) = trace w @ Mkdir ?T # backoff ?cp (zip [1..3] rcs) @ Mkdir ?T # backoff ?cf (zip [1..3] rcs')"
      with r show ?thesis
        by (simp only: new_events_append[of "snd ?r" w]) blast
    next
      fix rcs' assume "length rcs = 3" "0 \<notin> set rcs'" "length rcs' \<le> 2"
        "trace (snd ?r) = trace w @ Mkdir ?T # backoff ?cp (zip [1..3] rcs) @ Mkdir ?T # backoff ?cf (zip [1..3] rcs')
            @ [Spotdl ?cf 0]"
      with r show ?thesis
        by (simp only: new_events_append[of "snd ?r" w]) blast
    qed
  qed
qed

text \<open>
  Claim C4: \<open>run_spotdl_download_with_fallback\<close> returns the target folder with the
  preferred format when a preferred-format run exits with 0 (after at most two failed
  ones), the target folder with the fallback format when three preferred-format runs
  failed and a fallback run exits with 0, and \<open>None\<close> for the folder when three runs
  of each format failed. The format returned with a folder is the format of the run
  that succeeded, which is the last run.
\<close>

theorem run_spotdl_download_with_fallback_result:
  "\<exists>rcs rcs'. 0 \<notin> set rcs \<and> 0 \<notin> set rcs' \<and>
     ((fst (run_spotdl_download_with_fallback E url artist album w)
          = (Some (target_folder_of E artist album), PREFERRED_FORMAT)
       \<and> length rcs \<le> 2
       \<and> spotdl_runs (new_events w (snd (run_spotdl_download_with_fallback E url artist album w)))
           = map (Spotdl (download_cmd E url artist album PREFERRED_FORMAT None)) (rcs @ [0]))
    \<or> (fst (run_spotdl_download_with_fallback E url artist album w)
          = (Some (target_folder_of E artist album), FALLBACK_FORMAT)
       \<and> length rcs = 3 \<and> length rcs' \<le> 2
       \<and> spotdl_runs (new_events w (snd (run_spotdl_download_with_fallback E url artist album w)))
           = map (Spotdl (download_cmd E url artist album PREFERRED_FORMAT None)) rcs
             @ map (Spotdl (download_cmd E url artist album FALLBACK_FORMAT (Some MP3_BITRATE))) (rcs' @ [0]))
    \<or> (fst (run_spotdl_download_with_fallback E url artist album w) = (None, FALLBACK_FORMAT)
       \<and> length rcs = 3 \<and> length rcs' = 3
       \<and> spotdl_runs (new_events w (snd (run_spotdl_download_with_fallback E url artist album w)))
           = map (Spotdl (download_cmd E url artist album PREFERRED_FORMAT None)) rcs
             @ map (Spotdl (download_cmd E url artist album FALLBACK_FORMAT (Some MP3_BITRATE))) rcs'))"
proof -
  let ?T = "target_folder_of E artist album"
  let ?cp = "download_cmd E url artist album PREFERRED_FORMAT None"
  let ?cf = "download_cmd E url artist album FALLBACK_FORMAT (Some MP3_BITRATE)"
  let ?r = "run_spotdl_download_with_fallback E url artist album w"
  have len3: "length [1..(3::int)] = 3" by simp
  have runs: "\<And>rcs cmd. length rcs \<le> 3 \<Longrightarrow> spotdl_runs (backoff cmd (zip [1..3] rcs)) = map (Spotdl cmd) rcs"
    by (rule spotdl_runs_backoff) (simp add: len3)
  from with_fallback_shape[of E url artist album w] obtain rcs where r: "0 \<notin> set rcs"
    and c: "(fst ?r = (Some ?T, PREFERRED_FORMAT) \<and> length rcs \<le> 2
             \<and> trace (snd ?r) = trace w @ Mkdir ?T # backoff ?cp (zip [1..3] rcs) @ [Spotdl ?cp 0])
          \<or> (length rcs = 3 \<and>
              (\<exists>rcs'. 0 \<notin> set rcs' \<and>
                ((fst ?r = (None, FALLBACK_FORMAT) \<and> length rcs' = 3
                  \<and> trace (snd ?r) = trace w @ Mkdir ?T # backoff ?cp (zip [1..3] rcs)
                        @ Mkdir ?T # backoff ?cf (zip [1..3] rcs'))
               \<or> (fst ?r = (Some ?T, FALLBACK_FORMAT) \<and> length rcs' \<le> 2
                  \<and> trace (snd ?r) = trace w @ Mkdir ?T # backoff ?cp (zip [1..3] rcs)
                        @ Mkdir ?T # backoff ?cf (zip [1..3] rcs') @ [Spotdl ?cf 0]))))"
    by blast
  from c show ?thesis
  proof (elim disjE conjE exE)
    assume a: "fst ?r = (Some ?T, PREFERRED_FORMAT)" "length rcs \<le> 2"
      "trace (snd ?r) = trace w @ Mkdir ?T # backoff ?cp (zip [1..3] rcs) @ [Spotdl ?cp 0]"
    have "spotdl_runs (new_events w (snd ?r)) = map (Spotdl ?cp) (rcs @ [0])"
      using a(2) by (simp add: new_events_def a(3) spotdl_runs_Mkdir spotdl_runs_append runs spotdl_runs_Spotdl)
        (simp add: spotdl_runs_def)
    with a r show ?thesis
      by (intro exI[of _ rcs] exI[of _ "[]"]) simp
  next
    fix rcs' assume a: "length rcs = 3" "0 \<notin> set rcs'" "fst ?r = (None, FALLBACK_FORMAT)" "length rcs' = 3"
      "trace (snd ?r) = trace w @ Mkdir ?T # backoff ?cp (zip [1..3] rcs) @ Mkdir ?T # backoff ?cf (zip [1..3] rcs')"
    have "spotdl_runs (new_events w (snd ?r)) = map (Spotdl ?cp) rcs @ map (Spotdl ?cf) rcs'"
      using a(1,4) by (simp add: new_events_def a(5) spotdl_runs_Mkdir spotdl_runs_append runs)
    with a r show ?thesis
      by (intro exI[of _ rcs] exI[of _ rcs']) simp
  next
    fix rcs' assume a: "length rcs = 3" "0 \<notin> set rcs'" "fst ?r = (Some ?T, FALLBACK_FORMAT)" "length rcs' \<le> 2"
      "trace (snd ?r) = trace w @ Mkdir ?T # backoff ?cp (zip [1..3] rcs) @ Mkdir ?T # backoff ?cf (zip [1..3] rcs')
          @ [Spotdl ?cf 0]"
    have "spotdl_runs (new_events w (snd ?r)) = map (Spotdl ?cp) rcs @ map (Spotdl ?cf) (rcs' @ [0])"
      using a(1,4) by (simp add: new_events_def a(5) spotdl_runs_Mkdir spotdl_runs_append runs)
        (simp add: spotdl_runs_def)
    with a r show ?thesis
      by (intro exI[of _ rcs] exI[of _ rcs']) simp
  qed
qed

lemma spotdl_failing_env: "spotdl failing_env n cmd t = (1, t)"
  by (simp add: failing_env_def example_env_def tool_exit_def)

lemma spotdl_fallback_only_env:
  "spotdl fallback_only_env n (spotdl_cmd url tmpl fmt bitrate) t = (if fmt = ''mp3'' then 0 else 1, t)"
  by (simp add: fallback_only_env_def example_env_def fallback_only_tool_def spotdl_cmd_def)

lemma upto_1_3: "[1..(3::int)] = [1, 2, 3]"
  by (simp add: upto_rec1)

lemma run_failing:
  "run_spotdl_download failing_env url artist album fmt bitrate 2 w =
     (None, \<lparr>fs = mkdir_parents (fs w) (target_folder_of failing_env artist album),
             trace = trace w @ [Mkdir (target_folder_of failing_env artist album),
                      Spotdl (download_cmd failing_env url artist album fmt bitrate) 1, Sleep 2,
                      Spotdl (download_cmd failing_env url artist album fmt bitrate) 1, Sleep 4,
                      Spotdl (download_cmd failing_env url artist album fmt bitrate) 1, Sleep 8]\<rparr>)"
  by (simp add: run_spotdl_download_def Let_def upto_1_3 spotdl_failing_env emit_def download_cmd_def)

theorem run_spotdl_download_retries_witness:
  "(0::int) \<le> 2
   \<and> fst (run_spotdl_download failing_env ''u'' ''A'' ''B'' ''flac'' None 2 empty_world) = None
   \<and> new_events empty_world (snd (run_spotdl_download failing_env ''u'' ''A'' ''B'' ''flac'' None 2 empty_world))
       = [Mkdir (target_folder_of failing_env ''A'' ''B''),
          Spotdl (download_cmd failing_env ''u'' ''A'' ''B'' ''flac'' None) 1, Sleep 2,
          Spotdl (download_cmd failing_env ''u'' ''A'' ''B'' ''flac'' None) 1, Sleep 4,
          Spotdl (download_cmd failing_env ''u'' ''A'' ''B'' ''flac'' None) 1, Sleep 8]
   \<and> sorted_wrt (<) (map (\<lambda>attempt. (2::int) ^ nat attempt) [1..2 + 1])"
proof -
  have h: "(0::int) \<le> 2" by simp
  have ev: "new_events empty_world (snd (run_spotdl_download failing_env ''u'' ''A'' ''B'' ''flac'' None 2 empty_world))
       = [Mkdir (target_folder_of failing_env ''A'' ''B''),
          Spotdl (download_cmd failing_env ''u'' ''A'' ''B'' ''flac'' None) 1, Sleep 2,
          Spotdl (download_cmd failing_env ''u'' ''A'' ''B'' ''flac'' None) 1, Sleep 4,
          Spotdl (download_cmd failing_env ''u'' ''A'' ''B'' ''flac'' None) 1, Sleep 8]"
    unfolding run_failing by (simp add: new_events_def)
  have n: "fst (run_spotdl_download failing_env ''u'' ''A'' ''B'' ''flac'' None 2 empty_world) = None"
    unfolding run_failing by simp
  from run_spotdl_download_retries[OF h, of failing_env "''u''" "''A''" "''B''" "''flac''" None empty_world]
  have "sorted_wrt (<) (map (\<lambda>attempt. (2::int) ^ nat attempt) [1..2 + 1])" by blast
  with h ev n show ?thesis by blast
qed

lemma run_fallback_only_flac:
  "run_spotdl_download fallback_only_env url artist album ''flac'' bitrate 2 w =
     (None, \<lparr>fs = mkdir_parents (fs w) (target_folder_of fallback_only_env artist album),
             trace = trace w @ [Mkdir (target_folder_of fallback_only_env artist album),
                      Spotdl (download_cmd fallback_only_env url artist album ''flac'' bitrate) 1, Sleep 2,
                      Spotdl (download_cmd fallback_only_env url artist album ''flac'' bitrate) 1, Sleep 4,
                      Spotdl (download_cmd fallback_only_env url artist album ''flac'' bitrate) 1, Sleep 8]\<rparr>)"
  by (simp add: run_spotdl_download_def Let_def upto_1_3 spotdl_fallback_only_env emit_def download_cmd_def tick_def)

lemma run_fallback_only_mp3:
  "run_spotdl_download fallback_only_env url artist album ''mp3'' bitrate 2 w =
     (Some (target_folder_of fallback_only_env artist album),
      \<lparr>fs = mkdir_parents (fs w) (target_folder_of fallback_only_env artist album),
       trace = trace w @ [Mkdir (target_folder_of fallback_only_env artist album),
                      Spotdl (download_cmd fallback_only_env url artist album ''mp3'' bitrate) 0]\<rparr>)"
  by (simp add: run_spotdl_download_def Let_def upto_1_3 spotdl_fallback_only_env emit_def download_cmd_def tick_def)

lemma with_fallback_scenario:
  "run_spotdl_download_with_fallback fallback_only_env ''u'' ''A'' ''B'' empty_world =
     ((Some (target_folder_of fallback_only_env ''A'' ''B''), ''mp3''),
      \<lparr>fs = mkdir_parents (mkdir_parents (fs empty_world) (target_folder_of fallback_only_env ''A'' ''B''))
               (target_folder_of fallback_only_env ''A'' ''B''),
       trace = [Mkdir (target_folder_of fallback_only_env ''A'' ''B''),
                Spotdl (download_cmd fallback_only_env ''u'' ''A'' ''B'' ''flac'' None) 1, Sleep 2,
                Spotdl (download_cmd fallback_only_env ''u'' ''A'' ''B'' ''flac'' None) 1, Sleep 4,
                Spotdl (download_cmd fallback_only_env ''u'' ''A'' ''B'' ''flac'' None) 1, Sleep 8,
                Mkdir (target_folder_of fallback_only_env ''A'' ''B''),
                Spotdl (download_cmd fallback_only_env ''u'' ''A'' ''B'' ''mp3'' (Some ''320k'')) 0]\<rparr>)"
  by (simp add: with_fallback_eq PREFERRED_FORMAT_def FALLBACK_FORMAT_def MP3_BITRATE_def
        run_fallback_only_flac run_fallback_only_mp3 empty_world_def)

theorem run_spotdl_download_with_fallback_result_witness:
  "fst (run_spotdl_download_with_fallback fallback_only_env ''u'' ''A'' ''B'' empty_world)
     = (Some (target_folder_of fallback_only_env ''A'' ''B''), FALLBACK_FORMAT)
   \<and> spotdl_runs (new_events empty_world
        (snd (run_spotdl_download_with_fallback fallback_only_env ''u'' ''A'' ''B'' empty_world)))
     = [Spotdl (download_cmd fallback_only_env ''u'' ''A'' ''B'' PREFERRED_FORMAT None) 1,
        Spotdl (download_cmd fallback_only_env ''u'' ''A'' ''B'' PREFERRED_FORMAT None) 1,
        Spotdl (download_cmd fallback_only_env ''u'' ''A'' ''B'' PREFERRED_FORMAT None) 1,
        Spotdl (download_cmd fallback_only_env ''u'' ''A'' ''B'' FALLBACK_FORMAT (Some MP3_BITRATE)) 0]"
proof -
  have ev: "spotdl_runs (new_events empty_world
        (snd (run_spotdl_download_with_fallback fallback_only_env ''u'' ''A'' ''B'' empty_world)))
     = [Spotdl (download_cmd fallback_only_env ''u'' ''A'' ''B'' PREFERRED_FORMAT None) 1,
        Spotdl (download_cmd fallback_only_env ''u'' ''A'' ''B'' PREFERRED_FORMAT None) 1,
        Spotdl (download_cmd fallback_only_env ''u'' ''A'' ''B'' PREFERRED_FORMAT None) 1,
        Spotdl (download_cmd fallback_only_env ''u'' ''A'' ''B'' FALLBACK_FORMAT (Some MP3_BITRATE)) 0]"
    unfolding with_fallback_scenario
    by (simp add: new_events_def empty_world_def spotdl_runs_def PREFERRED_FORMAT_def FALLBACK_FORMAT_def MP3_BITRATE_def)
  have neq: "download_cmd fallback_only_env ''u'' ''A'' ''B'' PREFERRED_FORMAT None
               \<noteq> download_cmd fallback_only_env ''u'' ''A'' ''B'' FALLBACK_FORMAT (Some MP3_BITRATE)"
    by (rule preferred_cmd_neq_fallback_cmd)
  from run_spotdl_download_with_fallback_result[of fallback_only_env "''u''" "''A''" "''B''" empty_world]
  obtain rcs rcs' where
    "(fst (run_spotdl_download_with_fallback fallback_only_env ''u'' ''A'' ''B'' empty_world)
          = (Some (target_folder_of fallback_only_env ''A'' ''B''), PREFERRED_FORMAT)
       \<and> length rcs \<le> 2
       \<and> spotdl_runs (new_events empty_world (snd (run_spotdl_download_with_fallback fallback_only_env ''u'' ''A'' ''B'' empty_world)))
           = map (Spotdl (download_cmd fallback_only_env ''u'' ''A'' ''B'' PREFERRED_FORMAT None)) (rcs @ [0]))
    \<or> (fst (run_spotdl_download_with_fallback fallback_only_env ''u'' ''A'' ''B'' empty_world)
          = (Some (target_folder_of fallback_only_env ''A'' ''B''), FALLBACK_FORMAT)
       \<and> length rcs = 3 \<and> length rcs' \<le> 2
       \<and> spotdl_runs (new_events empty_world (snd (run_spotdl_download_with_fallback fallback_only_env ''u'' ''A'' ''B'' empty_world)))
           = map (Spotdl (download_cmd fallback_only_env ''u'' ''A'' ''B'' PREFERRED_FORMAT None)) rcs
             @ map (Spotdl (download_cmd fallback_only_env ''u'' ''A'' ''B'' FALLBACK_FORMAT (Some MP3_BITRATE))) (rcs' @ [0]))
    \<or> (fst (run_spotdl_download_with_fallback fallback_only_env ''u'' ''A'' ''B'' empty_world) = (None, FALLBACK_FORMAT)
       \<and> length rcs = 3 \<and> length rcs' = 3
       \<and> spotdl_runs (new_events empty_world (snd (run_spotdl_download_with_fallback fallback_only_env ''u'' ''A'' ''B'' empty_world)))
           = map (Spotdl (download_cmd fallback_only_env ''u'' ''A'' ''B'' PREFERRED_FORMAT None)) rcs
             @ map (Spotdl (download_cmd fallback_only_env ''u'' ''A'' ''B'' FALLBACK_FORMAT (Some MP3_BITRATE))) rcs')"
    by blast
  then have "fst (run_spotdl_download_with_fallback fallback_only_env ''u'' ''A'' ''B'' empty_world)
     = (Some (target_folder_of fallback_only_env ''A'' ''B''), FALLBACK_FORMAT)"
    unfolding with_fallback_scenario
    by (auto simp: PREFERRED_FORMAT_def FALLBACK_FORMAT_def)
  with ev show ?thesis by simp
qed

section \<open>The liked-songs resolver\<close>

lemma liked_tracks_length: "liked_tracks idx items = Inr tracks \<Longrightarrow> length tracks = length items"
proof (induction items arbitrary: idx tracks)
  case Nil
  then show ?case by simp
next
  case (Cons item items)
  then show ?case by (auto split: option.splits sum.splits)
qed

lemma liked_tracks_total:
  "None \<notin> set items \<Longrightarrow> \<exists>tracks. liked_tracks idx items = Inr tracks"
proof (induction items arbitrary: idx)
  case Nil
  then show ?case by simp
next
  case (Cons item items)
  then obtain t where t: "item = Some t" by (cases item) auto
  from Cons obtain tracks where "liked_tracks (idx + 1) items = Inr tracks" by fastforce
  then show ?case by (simp add: t)
qed

text \<open>
  Claim C9: the liked-songs resolver issues exactly one catalog read, of the URL with
  the hard-coded \<open>limit=50\<close>, and nothing else (no second page is requested); the
  tracks it returns are the items of that one response, so with a catalog that honours
  the limit it returns at most 50 tracks however many liked tracks the user has; its
  artwork reference is always \<open>None\<close>.
\<close>

theorem get_liked_songs_metadata_single_page:
  assumes "\<forall>items. catalog E liked_songs_url token = Inr (SavedTracksResponse items) \<longrightarrow> length items \<le> 50"
  shows "new_events w (snd (get_liked_songs_metadata E token w)) = [CatalogGet liked_songs_url token]
       \<and> liked_songs_url = ''https://api.spotify.com/v1/me/tracks?limit=50''
       \<and> fs (snd (get_liked_songs_metadata E token w)) = fs w
       \<and> (\<forall>md. fst (get_liked_songs_metadata E token w) = Inr md \<longrightarrow>
             length (md_tracks md) \<le> 50
           \<and> (\<exists>items. catalog E liked_songs_url token = Inr (SavedTracksResponse items)
                      \<and> length (md_tracks md) = length items)
           \<and> md_image_url md = None)"
proof (intro conjI allI impI)
  show "new_events w (snd (get_liked_songs_metadata E token w)) = [CatalogGet liked_songs_url token]"
    by (auto simp: get_liked_songs_metadata_def catalog_get_def emit_def new_events_def
          split: sum.splits response.splits)
  show "liked_songs_url = ''https://api.spotify.com/v1/me/tracks?limit=50''"
    by (simp add: liked_songs_url_def)
  show "fs (snd (get_liked_songs_metadata E token w)) = fs w"
    by (auto simp: get_liked_songs_metadata_def catalog_get_def emit_def
          split: sum.splits response.splits)
next
  fix md assume r: "fst (get_liked_songs_metadata E token w) = Inr md"
  then obtain items tracks where i: "catalog E liked_songs_url token = Inr (SavedTracksResponse items)"
    and t: "liked_tracks 1 items = Inr tracks"
    and md: "md = \<lparr>md_artist = ''Liked Songs'', md_album = ''Spotify Liked Songs'',
                   md_tracks = tracks, md_image_url = None\<rparr>"
    by (auto simp: get_liked_songs_metadata_def catalog_get_def split: sum.splits response.splits)
  have len: "length (md_tracks md) = length items" using liked_tracks_length[OF t] md by simp
  show "length (md_tracks md) \<le> 50" using len assms i by simp
  show "\<exists>items. catalog E liked_songs_url token = Inr (SavedTracksResponse items)
                      \<and> length (md_tracks md) = length items"
    using i len by blast
  show "md_image_url md = None" using md by simp
qed

theorem get_liked_songs_metadata_single_page_witness:
  "length big_library = 60
   \<and> new_events empty_world (snd (get_liked_songs_metadata library_env ''token'' empty_world))
       = [CatalogGet liked_songs_url ''token'']
   \<and> (\<exists>md. fst (get_liked_songs_metadata library_env ''token'' empty_world) = Inr md
          \<and> length (md_tracks md) = 50 \<and> md_image_url md = None)"
proof -
  let ?lib = "big_library"
  have n: "length big_library = 60" by (simp add: big_library_def)
  have c: "catalog library_env liked_songs_url ''token'' = Inr (SavedTracksResponse (take 50 ?lib))"
    by (simp add: library_env_def example_env_def library_catalog_def liked_songs_url_def)
  have h: "\<forall>items. catalog library_env liked_songs_url ''token'' = Inr (SavedTracksResponse items) \<longrightarrow> length items \<le> 50"
    unfolding c by auto
  have "None \<notin> set (take 50 ?lib)" by (auto simp: big_library_def dest: in_set_takeD)
  from liked_tracks_total[OF this, of 1] obtain tracks where t: "liked_tracks 1 (take 50 ?lib) = Inr tracks"
    by blast
  let ?md = "\<lparr>md_artist = ''Liked Songs'', md_album = ''Spotify Liked Songs'',
                   md_tracks = tracks, md_image_url = None\<rparr>"
  have r: "fst (get_liked_songs_metadata library_env ''token'' empty_world) = Inr ?md"
    by (simp add: get_liked_songs_metadata_def catalog_get_def c t)
  have l: "length tracks = 50" using liked_tracks_length[OF t] n by simp
  from get_liked_songs_metadata_single_page[OF h, of empty_world] r l n
  show ?thesis by auto
qed

section \<open>URL shapes\<close>

lemma py_in_iff: "py_in sub s \<longleftrightarrow> (\<exists>pre post. s = pre @ sub @ post)"
proof (induction s)
  case Nil
  then show ?case by auto
next
  case (Cons c cs)
  show ?case
  proof
    assume "py_in sub (c # cs)"
    then consider "prefix sub (c # cs)" | "py_in sub cs" by auto
    then show "\<exists>pre post. c # cs = pre @ sub @ post"
    proof cases
      case 1
      then obtain post where "c # cs = sub @ post" by (auto simp: prefix_def)
      then have "c # cs = [] @ sub @ post" by simp
      then show ?thesis by blast
    next
      case 2
      then obtain pre post where "cs = pre @ sub @ post" using Cons.IH by blast
      then have "c # cs = (c # pre) @ sub @ post" by simp
      then show ?thesis by blast
    qed
  next
    assume "\<exists>pre post. c # cs = pre @ sub @ post"
    then obtain pre post where e: "c # cs = pre @ sub @ post" by blast
    show "py_in sub (c # cs)"
    proof (cases pre)
      case Nil
      then have "prefix sub (c # cs)" using e by (simp add: prefix_def)
      then show ?thesis by simp
    next
      case (Cons a pre')
      then have "cs = pre' @ sub @ post" using e by simp
      then have "py_in sub cs" using Cons.IH by blast
      then show ?thesis by simp
    qed
  qed
qed

lemma re_search_None_iff: "re_search s = None \<longleftrightarrow> (\<forall>t. suffix t s \<longrightarrow> match_here t = None)"
proof (induction s)
  case Nil
  then show ?case by simp
next
  case (Cons c cs)
  show ?case
    by (auto simp: suffix_Cons Cons.IH split: option.splits)
qed

lemma strip_prefix_Some: "strip_prefix p s = Some r \<longleftrightarrow> s = p @ r"
  by (auto simp: strip_prefix_def prefix_def)

lemma strip_prefix_None: "strip_prefix p s = None \<longleftrightarrow> (\<forall>r. s \<noteq> p @ r)"
  by (auto simp: strip_prefix_def prefix_def)

lemma takeWhile_nonempty: "takeWhile P xs \<noteq> [] \<longleftrightarrow> (\<exists>c rest. xs = c # rest \<and> P c)"
  by (cases xs) auto

lemma match_kind_id_Some:
  "match_kind_id s \<noteq> None \<longleftrightarrow>
     (\<exists>kind\<in>set [''album'', ''playlist'', ''track'']. \<exists>c rest. is_alnum c \<and> s = kind @ ''/'' @ c # rest)"
proof -
  let ?P = "\<lambda>k. case strip_prefix (k @ ''/'') s of None \<Rightarrow> False | Some r \<Rightarrow> takeWhile is_alnum r \<noteq> []"
  have P: "\<And>k. ?P k \<longleftrightarrow> (\<exists>c rest. is_alnum c \<and> s = k @ ''/'' @ c # rest)"
  proof -
    fix k
    show "?P k \<longleftrightarrow> (\<exists>c rest. is_alnum c \<and> s = k @ ''/'' @ c # rest)"
    proof (cases "strip_prefix (k @ ''/'') s")
      case None
      then have "\<forall>r. s \<noteq> (k @ ''/'') @ r" by (simp add: strip_prefix_None)
      then show ?thesis by (auto simp: None)
    next
      case (Some r)
      then have s: "s = (k @ ''/'') @ r" by (simp add: strip_prefix_Some)
      show ?thesis using Some by (auto simp: s takeWhile_nonempty)
    qed
  qed
  have "match_kind_id s \<noteq> None \<longleftrightarrow> find ?P [''album'', ''playlist'', ''track''] \<noteq> None"
    by (simp add: match_kind_id_def split: option.splits)
  also have "\<dots> \<longleftrightarrow> (\<exists>k\<in>set [''album'', ''playlist'', ''track'']. ?P k)"
    by (simp only: find_None_iff) blast
  finally show ?thesis by (simp only: P)
qed

lemma match_host_Some:
  "match_host s \<noteq> None \<longleftrightarrow>
     (\<exists>kind\<in>set [''album'', ''playlist'', ''track'']. \<exists>c rest.
        is_alnum c \<and> s = ''://open.spotify.com/'' @ kind @ ''/'' @ c # rest)"
proof (cases "strip_prefix ''://open.spotify.com/'' s")
  case None
  then have "\<forall>r. s \<noteq> ''://open.spotify.com/'' @ r" by (simp add: strip_prefix_None)
  then show ?thesis by (auto simp: None match_host_def)
next
  case (Some r)
  then have s: "s = ''://open.spotify.com/'' @ r" by (simp add: strip_prefix_Some)
  have "match_host s \<noteq> None \<longleftrightarrow> match_kind_id r \<noteq> None" using Some by (simp add: match_host_def)
  then show ?thesis unfolding match_kind_id_Some s by auto
qed

lemma match_here_Some:
  "match_here s \<noteq> None \<longleftrightarrow>
     (\<exists>scheme\<in>set [''http'', ''https''].
      \<exists>kind\<in>set [''album'', ''playlist'', ''track'']. \<exists>c rest.
        is_alnum c \<and> s = scheme @ ''://open.spotify.com/'' @ kind @ ''/'' @ c # rest)"
proof (cases "strip_prefix ''http'' s")
  case None
  then have "\<forall>r. s \<noteq> ''http'' @ r" by (simp add: strip_prefix_None)
  then have "\<forall>r. s \<noteq> ''http'' @ r \<and> s \<noteq> ''https'' @ r" by auto
  then show ?thesis by (auto simp: None match_here_def)
next
  case (Some r)
  then have s: "s = ''http'' @ r" by (simp add: strip_prefix_Some)
  have a: "match_here s \<noteq> None \<longleftrightarrow>
             (\<exists>r'. r = ''s'' @ r' \<and> match_host r' \<noteq> None) \<or> match_host r \<noteq> None"
    using Some by (auto simp: match_here_def strip_prefix_Some strip_prefix_None split: option.splits)
  have b: "(\<exists>r'. r = ''s'' @ r' \<and> match_host r' \<noteq> None) \<longleftrightarrow>
           (\<exists>kind\<in>set [''album'', ''playlist'', ''track'']. \<exists>c rest.
              is_alnum c \<and> s = ''https'' @ ''://open.spotify.com/'' @ kind @ ''/'' @ c # rest)"
    unfolding match_host_Some s by auto
  have c: "match_host r \<noteq> None \<longleftrightarrow>
           (\<exists>kind\<in>set [''album'', ''playlist'', ''track'']. \<exists>c rest.
              is_alnum c \<and> s = ''http'' @ ''://open.spotify.com/'' @ kind @ ''/'' @ c # rest)"
    unfolding match_host_Some s by auto
  show ?thesis unfolding a b c by auto
qed


lemma re_search_Some_iff:
  "re_search url \<noteq> None \<longleftrightarrow>
     (\<exists>scheme\<in>set [''http'', ''https''].
      \<exists>kind\<in>set [''album'', ''playlist'', ''track''].
      \<exists>c. is_alnum c \<and> py_in (scheme @ ''://open.spotify.com/'' @ kind @ ''/'' @ [c]) url)"
proof
  assume "re_search url \<noteq> None"
  then obtain t where t: "suffix t url" "match_here t \<noteq> None"
    by (auto simp: re_search_None_iff)
  then obtain scheme kind c rest where k: "scheme \<in> set [''http'', ''https'']"
      "kind \<in> set [''album'', ''playlist'', ''track'']" "is_alnum c"
      "t = scheme @ ''://open.spotify.com/'' @ kind @ ''/'' @ c # rest"
    unfolding match_here_Some by blast
  from t(1) obtain pre where "url = pre @ t" by (auto simp: suffix_def)
  then have "url = pre @ (scheme @ ''://open.spotify.com/'' @ kind @ ''/'' @ [c]) @ rest"
    using k(4) by simp
  then have "py_in (scheme @ ''://open.spotify.com/'' @ kind @ ''/'' @ [c]) url"
    unfolding py_in_iff by blast
  with k show "\<exists>scheme\<in>set [''http'', ''https''].
      \<exists>kind\<in>set [''album'', ''playlist'', ''track''].
      \<exists>c. is_alnum c \<and> py_in (scheme @ ''://open.spotify.com/'' @ kind @ ''/'' @ [c]) url"
    by blast
next
  assume "\<exists>scheme\<in>set [''http'', ''https''].
      \<exists>kind\<in>set [''album'', ''playlist'', ''track''].
      \<exists>c. is_alnum c \<and> py_in (scheme @ ''://open.spotify.com/'' @ kind @ ''/'' @ [c]) url"
  then obtain scheme kind c where k: "scheme \<in> set [''http'', ''https'']"
      "kind \<in> set [''album'', ''playlist'', ''track'']" "is_alnum c"
      "py_in (scheme @ ''://open.spotify.com/'' @ kind @ ''/'' @ [c]) url"
    by blast
  from k(4) obtain pre post where
    u: "url = pre @ (scheme @ ''://open.spotify.com/'' @ kind @ ''/'' @ [c]) @ post"
    unfolding py_in_iff by blast
  let ?t = "scheme @ ''://open.spotify.com/'' @ kind @ ''/'' @ c # post"
  have "url = pre @ ?t" using u by simp
  then have "suffix ?t url" by (auto simp: suffix_def)
  moreover have "match_here ?t \<noteq> None" unfolding match_here_Some using k(1,2,3) by blast
  ultimately show "re_search url \<noteq> None" by (auto simp: re_search_None_iff)
qed

lemma extract_None_iff: "extract_spotify_id_and_type url = None \<longleftrightarrow> \<not> recognized_shape url"
proof -
  have "extract_spotify_id_and_type url = None \<longleftrightarrow> \<not> py_in ''liked-songs'' url \<and> re_search url = None"
    by (simp add: extract_spotify_id_and_type_def)
  also have "\<dots> \<longleftrightarrow> \<not> (py_in ''liked-songs'' url \<or> re_search url \<noteq> None)"
    by (simp only: de_Morgan_disj not_not)
  also have "\<dots> \<longleftrightarrow> \<not> recognized_shape url"
    unfolding re_search_Some_iff recognized_shape_def is_alnum_def by blast
  finally show ?thesis .
qed

text \<open>
  Claim C8: for every URL whose shape is not recognized as a track, album, playlist or
  liked-songs URL, the resolution returns the empty result without asking for a token,
  and \<open>download_spotify_url\<close> returns with the world unchanged: no acquisition attempt,
  nothing written to the log, no event at all.
\<close>

theorem unrecognized_url_aborts:
  assumes "\<not> recognized_shape url"
  shows "extract_spotify_id_and_type url = None
       \<and> get_metadata_from_url E url w = (Inr None, w)
       \<and> download_spotify_url E url w = (None, w)
       \<and> new_events w (snd (download_spotify_url E url w)) = []"
proof -
  have e: "extract_spotify_id_and_type url = None" using assms by (simp add: extract_None_iff)
  then show ?thesis
    by (simp add: get_metadata_from_url_def download_spotify_url_def new_events_def)
qed

lemma artist_url_unrecognized: "\<not> recognized_shape ''https://open.spotify.com/artist/123''"
proof -
  have "extract_spotify_id_and_type ''https://open.spotify.com/artist/123'' = None"
    by (simp add: extract_spotify_id_and_type_def match_here_def strip_prefix_def match_host_def match_kind_id_def)
  then show ?thesis by (simp add: extract_None_iff[symmetric])
qed

theorem unrecognized_url_aborts_witness:
  "\<not> recognized_shape ''https://open.spotify.com/artist/123''
   \<and> extract_spotify_id_and_type ''https://open.spotify.com/artist/123'' = None
   \<and> download_spotify_url gap_env ''https://open.spotify.com/artist/123'' empty_world = (None, empty_world)"
  using unrecognized_url_aborts[OF artist_url_unrecognized, of gap_env empty_world] artist_url_unrecognized
  by simp

section \<open>The run log\<close>

lemma emits_only_emit: "P e \<Longrightarrow> emits_only P w (emit e w)"
  by (auto simp: emit_def intro!: emits_onlyI)

lemma emits_only_fs: "emits_only P w w' \<Longrightarrow> emits_only P (w\<lparr>fs := t\<rparr>) w'"
  by (simp add: emits_only_def)

lemma snd_fetchers:
  "snd (get_album_metadata E spotify_id token w)
     = emit (CatalogGet (''https://api.spotify.com/v1/albums/'' @ spotify_id) token) w"
  "snd (get_track_metadata E spotify_id token w)
     = emit (CatalogGet (''https://api.spotify.com/v1/tracks/'' @ spotify_id) token) w"
  "snd (get_playlist_metadata E spotify_id token w)
     = emit (CatalogGet (''https://api.spotify.com/v1/playlists/'' @ spotify_id) token) w"
  "snd (get_liked_songs_metadata E token w) = emit (CatalogGet liked_songs_url token) w"
  by (simp_all add: get_album_metadata_def get_track_metadata_def get_playlist_metadata_def
        get_liked_songs_metadata_def catalog_get_def Let_def
        split: sum.splits response.splits)

lemma catalog_fetch_no_log:
  "emits_only no_log w (snd (get_album_metadata E spotify_id token w))"
  "emits_only no_log w (snd (get_track_metadata E spotify_id token w))"
  "emits_only no_log w (snd (get_playlist_metadata E spotify_id token w))"
  "emits_only no_log w (snd (get_liked_songs_metadata E token w))"
  unfolding snd_fetchers by (rule emits_only_emit, simp add: no_log_def)+
























end
